theory Spec2Isabelle
  imports Complex_Main "HOL-Library.Sublist"
begin

section \<open>JavaScript values, buffers and errors\<close>

text \<open>
  A Node \<open>Buffer\<close> is a sequence of bytes; Isabelle's \<open>char\<close> is a byte, so a buffer is a
  \<open>char list\<close>. Every JavaScript string that \<open>src/signpdf.js\<close> handles is either ASCII text or
  a "binary" string (one character per byte), so strings are byte lists as well and
  \<open>Buffer.from(s)\<close>, \<open>buf.toString('binary')\<close> are the identity. JavaScript numbers are doubles;
  every number below is an integer far inside the exactly represented range, so numbers are
  \<open>int\<close>, apart from the one true division of the source, which is done in \<open>rat\<close>.
\<close>

type_synonym buffer = "char list"

text \<open>
  An ASN.1 object of the toolkit (node-forge): its tag class, its type, the \<open>constructed\<close>
  flag and its \<open>value\<close> property, which is a binary string or an array of ASN.1 objects.
\<close>

datatype asn1 = Asn1 nat nat bool asn1_content
  and asn1_content = Bytes string | Children "asn1 list"

text \<open>An argument as a caller can pass it: only a \<open>Buffer\<close> passes \<open>instanceof Buffer\<close>.\<close>

datatype js_value = Buffer buffer | JsString string | JsUndefined

text \<open>
  What a property read inside an ASN.1 object can meet: \<open>undefined\<close>, a binary string, an
  array of ASN.1 objects, or an ASN.1 object.
\<close>

datatype property = Undef | Str string | Arr "asn1 list" | Obj asn1

text \<open>
  Modelled from the spec: the class \<open>SignPdfError\<close> (\<open>./SignPdfError\<close>) is imported by
  \<open>src/signpdf.js\<close> but is not among the sources. The spec names the error kinds
  \<open>InputError\<close> and \<open>ParseError\<close>; the source refers to them as \<open>SignPdfError.TYPE_INPUT\<close>,
  \<open>SignPdfError.TYPE_PARSE\<close> and, in \<open>verify\<close>, \<open>SignPdfError.VERIFY_SIGNATURE\<close>.
\<close>

datatype error_type = TYPE_INPUT | TYPE_PARSE | VERIFY_SIGNATURE

text \<open>
  What a JavaScript \<open>throw\<close> carries: a \<open>SignPdfError\<close> with its message and type, or an
  exception of another class (the built-in \<open>TypeError\<close> and \<open>RangeError\<close>, or an \<open>Error\<close>
  of the cryptographic toolkit).
\<close>

datatype js_error =
    SignPdfError string error_type
  | TypeError
  | RangeError
  | LibraryError string

text \<open>Sequencing of statements that may throw: the first exception ends the sequence.\<close>

definition ebind :: "'e + 'a \<Rightarrow> ('a \<Rightarrow> 'e + 'b) \<Rightarrow> 'e + 'b" where
  "ebind m f = (case m of Inl err \<Rightarrow> Inl err | Inr x \<Rightarrow> f x)"

section \<open>The primitives of Node and of the language that \<open>sign\<close> uses\<close>

subsection \<open>\<open>buf.indexOf(value, byteOffset)\<close>\<close>

text \<open>
  The first position at or after \<open>k\<close> where \<open>needle\<close> starts, \<open>-1\<close> when there is none;
  \<open>hay\<close> is the part of the buffer from position \<open>k\<close> on.
\<close>

fun find_from :: "string \<Rightarrow> buffer \<Rightarrow> nat \<Rightarrow> int" where
  "find_from needle [] k = - 1"
| "find_from needle (h # hay) k =
     (if prefix needle (h # hay) then int k else find_from needle hay (Suc k))"

text \<open>
  Node's \<open>Buffer.prototype.indexOf\<close> for a string value. A negative \<open>byteOffset\<close> counts from
  the end of the buffer (and the whole buffer is searched when it reaches before the start);
  an offset that leaves no room for the value gives \<open>-1\<close>; an empty value gives the offset.
\<close>

definition buffer_indexOf :: "buffer \<Rightarrow> string \<Rightarrow> int \<Rightarrow> int" where
  "buffer_indexOf buf val byteOffset =
     (let len = int (length buf);
          needle_length = int (length val);
          opt_offset =
            (if byteOffset < 0 then (if 0 \<le> byteOffset + len then len + byteOffset else 0)
             else if byteOffset + needle_length \<le> len then byteOffset
             else if needle_length = 0 then len
             else - 1)
      in if needle_length = 0 then opt_offset
         else if len = 0 then - 1
         else if opt_offset \<le> - 1 then - 1
         else find_from val (drop (nat opt_offset) buf) (nat opt_offset))"

subsection \<open>\<open>buf.slice(start, end)\<close> and \<open>Buffer.concat\<close>\<close>

text \<open>
  Node's \<open>adjustOffset\<close>: a negative offset counts from the end, and every offset is clamped
  to the buffer.
\<close>

definition adjustOffset :: "int \<Rightarrow> int \<Rightarrow> int" where
  "adjustOffset offset len =
     (if offset < 0 then (if 0 < offset + len then offset + len else 0)
      else if offset < len then offset
      else len)"

definition buffer_slice :: "buffer \<Rightarrow> int \<Rightarrow> int \<Rightarrow> buffer" where
  "buffer_slice buf start finish =
     (let srcLength = int (length buf);
          s = adjustOffset start srcLength;
          e = adjustOffset finish srcLength;
          newLength = (if s < e then e - s else 0)
      in take (nat newLength) (drop (nat s) buf))"

text \<open>\<open>buf.slice(start)\<close>: the end defaults to the length of the buffer.\<close>

definition buffer_slice_from :: "buffer \<Rightarrow> int \<Rightarrow> buffer" where
  "buffer_slice_from buf start = buffer_slice buf start (int (length buf))"

text \<open>\<open>Buffer.concat(list)\<close> is \<^const>\<open>concat\<close>.\<close>

subsection \<open>Numbers and strings\<close>

text \<open>
  The decimal digits of a natural number, as \<open>Number.prototype.toString\<close> prints an
  integer below \<open>10^21\<close>.
\<close>

fun digits :: "nat \<Rightarrow> string" where
  "digits n =
     (if n < 10 then [char_of (48 + n)]
      else digits (n div 10) @ [char_of (48 + n mod 10)])"

declare digits.simps [simp del]

definition number_toString :: "int \<Rightarrow> string" where
  "number_toString i = (if i < 0 then CHR ''-'' # digits (nat (- i)) else digits (nat i))"

text \<open>\<open>array.join(separator)\<close> on an array of strings.\<close>

fun join :: "string list \<Rightarrow> string \<Rightarrow> string" where
  "join [] sep = []"
| "join [x] sep = x"
| "join (x # y # xs) sep = x @ sep @ join (y # xs) sep"

text \<open>
  \<open>String.prototype.repeat(count)\<close>: the count is truncated towards zero
  (\<open>ToIntegerOrInfinity\<close>), and a negative result throws a \<open>RangeError\<close>.
\<close>

definition js_repeat :: "string \<Rightarrow> rat \<Rightarrow> js_error + string" where
  "js_repeat s count =
     (let n = (if count < 0 then - \<lfloor>- count\<rfloor> else \<lfloor>count\<rfloor>)
      in if n < 0 then Inl RangeError else Inr (concat (replicate (nat n) s)))"

text \<open>\<open>buf.toString('hex')\<close>: two lower-case hexadecimal digits for every byte.\<close>

definition hex_digit :: "nat \<Rightarrow> char" where
  "hex_digit d = (if d < 10 then char_of (48 + d) else char_of (87 + d))"

definition toString_hex :: "buffer \<Rightarrow> string" where
  "toString_hex buf =
     concat (map (\<lambda>b. [hex_digit (of_char b div 16), hex_digit (of_char b mod 16)]) buf)"

section \<open>The signer object and the placeholder arithmetic of \<open>sign\<close>\<close>

text \<open>The fields of a \<open>SignPdf\<close> instance, and the instance its constructor builds.\<close>

record signpdf =
  byteRangePlaceholder :: string
  lastSignature :: "string option"

definition DEFAULT_BYTE_RANGE_PLACEHOLDER :: string where
  "DEFAULT_BYTE_RANGE_PLACEHOLDER = ''**********''"

definition new_SignPdf :: signpdf where
  "new_SignPdf =
     \<lparr>byteRangePlaceholder = DEFAULT_BYTE_RANGE_PLACEHOLDER, lastSignature = None\<rparr>"

text \<open>Lines 43 to 49: the text \<open>/ByteRange [0 /********** /********** /**********]\<close>.\<close>

definition byteRangeString :: "signpdf \<Rightarrow> string" where
  "byteRangeString this =
     ''/ByteRange ['' @
     join [number_toString 0,
           ''/'' @ byteRangePlaceholder this,
           ''/'' @ byteRangePlaceholder this,
           ''/'' @ byteRangePlaceholder this] '' '' @
     '']''"

text \<open>
  The values lines 50 to 68 compute from the document; \<open>byteRange\<close> is the array
  \<open>[0, byteRange[1], byteRange[2], byteRange[3]]\<close>.
\<close>

record placement =
  byteRangePos :: int
  byteRangeEnd :: int
  contentsTagPos :: int
  placeholderPos :: int
  placeholderEnd :: int
  placeholderLengthWithBrackets :: int
  placeholderLength :: int
  byteRange :: "int \<times> int \<times> int \<times> int"

text \<open>
  Lines 50 to 68. Only the search for the \<open>/ByteRange\<close> placeholder is checked; the three
  searches after it use their results as they come, \<open>-1\<close> included.
\<close>

definition locate :: "signpdf \<Rightarrow> buffer \<Rightarrow> js_error + placement" where
  "locate this pdf =
     (let brPos = buffer_indexOf pdf (byteRangeString this) 0
      in if brPos = - 1
         then Inl (SignPdfError
                (''Could not find ByteRange placeholder: '' @ byteRangeString this) TYPE_PARSE)
         else
           (let brEnd = brPos + int (length (byteRangeString this));
                ctPos = buffer_indexOf pdf ''/Contents '' brEnd;
                pPos = buffer_indexOf pdf ''<'' ctPos;
                pEnd = buffer_indexOf pdf ''>'' pPos;
                withBrackets = (pEnd + 1) - pPos;
                br1 = pPos;
                br2 = br1 + withBrackets;
                br3 = int (length pdf) - br2
            in Inr \<lparr>byteRangePos = brPos, byteRangeEnd = brEnd, contentsTagPos = ctPos,
                     placeholderPos = pPos, placeholderEnd = pEnd,
                     placeholderLengthWithBrackets = withBrackets,
                     placeholderLength = withBrackets - 2,
                     byteRange = (0, br1, br2, br3)\<rparr>))"

text \<open>Line 69: \<open>`/ByteRange [${byteRange.join(' ')}]`\<close>.\<close>

definition actualByteRange :: "placement \<Rightarrow> string" where
  "actualByteRange pl =
     (case byteRange pl of (br0, br1, br2, br3) \<Rightarrow>
        ''/ByteRange ['' @
        join [number_toString br0, number_toString br1,
              number_toString br2, number_toString br3] '' '' @
        '']'')"

text \<open>
  Lines 70 to 77: the text is padded with spaces to the width of the placeholder text and
  takes its place in the buffer.
\<close>

definition rewrite_byteRange :: "signpdf \<Rightarrow> buffer \<Rightarrow> placement \<Rightarrow> js_error + buffer" where
  "rewrite_byteRange this pdf pl =
     ebind (js_repeat '' ''
              (of_int (int (length (byteRangeString this)) - int (length (actualByteRange pl)))))
       (\<lambda>spaces.
          Inr (concat [buffer_slice pdf 0 (byteRangePos pl),
                       actualByteRange pl @ spaces,
                       buffer_slice_from pdf (byteRangeEnd pl)]))"

text \<open>Lines 80 to 83: the bracketed placeholder is cut out of the buffer.\<close>

definition remove_placeholder :: "buffer \<Rightarrow> placement \<Rightarrow> buffer" where
  "remove_placeholder pdf pl =
     (case byteRange pl of (br0, br1, br2, br3) \<Rightarrow>
        concat [buffer_slice pdf 0 br1, buffer_slice pdf br2 (br2 + br3)])"

section \<open>The collaborators: the helpers of the repository, node-forge and Node's crypto\<close>

text \<open>The objects of node-forge that \<open>sign\<close> and \<open>verify\<close> read.\<close>

record rsa_public_key =
  pub_n :: int
  pub_e :: int

record certificate =
  publicKey :: rsa_public_key
  cert_der :: string

record rsa_private_key =
  priv_n :: int
  priv_e :: int
  priv_d :: int

text \<open>
  A parsed PKCS#12 container, as \<open>p12.getBags\<close> shows it: the certificates of its
  \<open>certBag\<close> bags and the keys of its \<open>pkcs8ShroudedKeyBag\<close> bags, in bag order.
\<close>

record pkcs12 =
  certBags :: "certificate list"
  keyBags :: "rsa_private_key list"

datatype attribute_value = OidValue string | AutoPopulated | DateValue int

record signer =
  signer_key :: rsa_private_key
  signer_certificate :: certificate
  digestAlgorithm :: string
  authenticatedAttributes :: "(string \<times> attribute_value) list"

text \<open>The object \<open>forge.pkcs7.createSignedData()\<close> returns, with what \<open>sign\<close> puts into it.\<close>

record signed_data =
  p7_content :: string
  p7_certificates :: "certificate list"
  p7_signers :: "signer list"

text \<open>What \<open>verify\<close> reads of a parsed PKCS#7 message.\<close>

record pkcs7_message =
  rawCapture_signature :: string
  rawCapture_authenticatedAttributes :: "asn1 list"
  rawCapture_digestAlgorithm :: string
  msg_certificates :: "certificate list"

text \<open>The options of \<open>sign\<close>: the defaults of lines 21 to 25 under the caller's own.\<close>

record sign_options =
  asn1StrictParsing :: bool
  passphrase :: string

record additional_options =
  given_asn1StrictParsing :: "bool option"
  given_passphrase :: "string option"

definition merge_options :: "additional_options \<Rightarrow> sign_options" where
  "merge_options additionalOptions =
     \<lparr>asn1StrictParsing =
        (case given_asn1StrictParsing additionalOptions of None \<Rightarrow> False | Some b \<Rightarrow> b),
      passphrase =
        (case given_passphrase additionalOptions of None \<Rightarrow> [] | Some p \<Rightarrow> p)\<rparr>"

text \<open>
  Everything \<open>src/signpdf.js\<close> calls and does not define is a parameter: the two helpers of
  \<open>./helpers\<close> (not among the sources), the functions of node-forge and of Node's \<open>crypto\<close>,
  and the clock that \<open>new Date()\<close> reads. Each call may throw.
  \<^item> \<open>sign_toAsn1\<close> is \<open>p7.sign({detached: true})\<close> followed by \<open>p7.toAsn1()\<close>;
  \<^item> \<open>toDer\<close> is \<open>forge.asn1.toDer(obj)\<close> read as bytes (\<open>.getBytes()\<close>, \<open>.data\<close>);
  \<^item> \<open>oids\<close> is the table \<open>forge.pki.oids\<close> read at a dotted identifier;
  \<^item> \<open>crypto_verify alg buf cert sig\<close> is
    \<open>crypto.createVerify(alg).update(buf).verify(cert, sig, 'binary')\<close>;
  \<^item> \<open>crypto_hash alg buf\<close> is \<open>crypto.createHash(alg).update(buf).digest()\<close>.
\<close>

record toolkit =
  removeTrailingNewLine :: "buffer \<Rightarrow> buffer"
  extractSignature :: "buffer \<Rightarrow> js_error + (string \<times> buffer)"
  fromDer :: "string \<Rightarrow> js_error + asn1"
  toDer :: "asn1 \<Rightarrow> js_error + string"
  pkcs12FromAsn1 :: "asn1 \<Rightarrow> bool \<Rightarrow> string \<Rightarrow> js_error + pkcs12"
  sign_toAsn1 :: "signed_data \<Rightarrow> js_error + asn1"
  current_date :: int
  messageFromAsn1 :: "asn1 \<Rightarrow> js_error + pkcs7_message"
  derToOid :: "property \<Rightarrow> js_error + string"
  oids :: "string \<Rightarrow> string option"
  certificateToPem :: "certificate \<Rightarrow> js_error + string"
  crypto_verify :: "string \<Rightarrow> buffer \<Rightarrow> string \<Rightarrow> string \<Rightarrow> js_error + bool"
  crypto_hash :: "string \<Rightarrow> buffer \<Rightarrow> js_error + buffer"

text \<open>The object identifiers of \<open>forge.pki.oids\<close> that the source names.\<close>

definition oid_sha256 :: string where
  "oid_sha256 = ''2.16.840.1.101.3.4.2.1''"

definition oid_contentType :: string where
  "oid_contentType = ''1.2.840.113549.1.9.3''"

definition oid_data :: string where
  "oid_data = ''1.2.840.113549.1.7.1''"

definition oid_messageDigest :: string where
  "oid_messageDigest = ''1.2.840.113549.1.9.4''"

definition oid_signingTime :: string where
  "oid_signingTime = ''1.2.840.113549.1.9.5''"

section \<open>\<open>sign\<close>: building the signature\<close>

text \<open>
  Lines 113 to 124, one round of the \<open>forEach\<close> over the certificate bags: the certificate
  is added to the message, and it replaces the certificate kept so far when its public key
  has the modulus and the exponent of the private key (\<open>compareTo(...) === 0\<close>).
\<close>

definition matches_private_key :: "rsa_private_key \<Rightarrow> certificate \<Rightarrow> bool" where
  "matches_private_key privateKey cert \<longleftrightarrow>
     priv_n privateKey = pub_n (publicKey cert) \<and> priv_e privateKey = pub_e (publicKey cert)"

definition forEach_certBag ::
  "rsa_private_key \<Rightarrow> certificate \<Rightarrow> signed_data \<times> certificate option
     \<Rightarrow> signed_data \<times> certificate option" where
  "forEach_certBag privateKey cert acc =
     (case acc of (p7, kept) \<Rightarrow>
        (p7\<lparr>p7_certificates := p7_certificates p7 @ [cert]\<rparr>,
         if matches_private_key privateKey cert then Some cert else kept))"

text \<open>Lines 134 to 153: the signer that \<open>p7.addSigner\<close> receives.\<close>

definition make_signer :: "toolkit \<Rightarrow> rsa_private_key \<Rightarrow> certificate \<Rightarrow> signer" where
  "make_signer tk privateKey cert =
     \<lparr>signer_key = privateKey,
      signer_certificate = cert,
      digestAlgorithm = oid_sha256,
      authenticatedAttributes =
        [(oid_contentType, OidValue oid_data),
         (oid_messageDigest, AutoPopulated),
         (oid_signingTime, DateValue (current_date tk))]\<rparr>"

text \<open>
  Lines 103 to 153: the message handed to \<open>p7.sign\<close>. \<open>keyBags[0].key\<close> throws a
  \<open>TypeError\<close> when the container has no key bag.
\<close>

definition signing_message ::
  "toolkit \<Rightarrow> buffer \<Rightarrow> pkcs12 \<Rightarrow> js_error + signed_data" where
  "signing_message tk pdf p12 =
     (case keyBags p12 of
        [] \<Rightarrow> Inl TypeError
      | privateKey # _ \<Rightarrow>
          (case fold (forEach_certBag privateKey) (certBags p12)
                  (\<lparr>p7_content = pdf, p7_certificates = [], p7_signers = []\<rparr>, None) of
             (p7, None) \<Rightarrow>
               Inl (SignPdfError
                 ''Failed to find a certificate that matches the private key.'' TYPE_INPUT)
           | (p7, Some cert) \<Rightarrow>
               Inr (p7\<lparr>p7_signers := p7_signers p7 @ [make_signer tk privateKey cert]\<rparr>)))"

text \<open>Lines 86 to 159: from the container's bytes to the DER bytes of the signature.\<close>

definition build_signature ::
  "toolkit \<Rightarrow> buffer \<Rightarrow> buffer \<Rightarrow> sign_options \<Rightarrow> js_error + string" where
  "build_signature tk pdf p12Buffer options =
     ebind (fromDer tk p12Buffer) (\<lambda>p12Asn1.
     ebind (pkcs12FromAsn1 tk p12Asn1 (asn1StrictParsing options) (passphrase options)) (\<lambda>p12.
     ebind (signing_message tk pdf p12) (\<lambda>p7.
     ebind (sign_toAsn1 tk p7) (\<lambda>p7Asn1.
     toDer tk p7Asn1))))"

section \<open>\<open>sign\<close>: embedding the signature\<close>

text \<open>
  Lines 169 to 176: the signature in hexadecimal, then one \<open>00\<close> for each of
  \<open>(placeholderLength / 2) - raw.length\<close> zero bytes. The division is JavaScript's true
  division, and \<open>repeat\<close> truncates its count.
\<close>

definition padded_signature :: "string \<Rightarrow> int \<Rightarrow> js_error + string" where
  "padded_signature raw placeholderLength' =
     ebind (js_repeat [CHR 0x00] (of_int placeholderLength' / 2 - of_int (int (length raw))))
       (\<lambda>zeroes. Inr (toString_hex raw @ toString_hex zeroes))"

text \<open>
  Lines 162 to 186: the capacity check, the cached signature (\<open>this.lastSignature\<close>, written
  after the check) and the insertion at \<open>byteRange[1]\<close>. The result is what \<open>sign\<close> returns or
  throws, with the signer object as the call leaves it.
\<close>

definition embed ::
  "signpdf \<Rightarrow> buffer \<Rightarrow> placement \<Rightarrow> string \<Rightarrow> (js_error + buffer) \<times> signpdf" where
  "embed this pdf pl raw =
     (if placeholderLength pl < int (length raw) * 2
      then (Inl (SignPdfError
                  (''Signature exceeds placeholder length: '' @
                   number_toString (int (length raw) * 2) @ '' > '' @
                   number_toString (placeholderLength pl)) TYPE_INPUT),
            this)
      else
        (let this' = this\<lparr>lastSignature := Some (toString_hex raw)\<rparr>
         in case padded_signature raw (placeholderLength pl) of
              Inl err \<Rightarrow> (Inl err, this')
            | Inr signature \<Rightarrow>
                (case byteRange pl of (br0, br1, br2, br3) \<Rightarrow>
                   (Inr (concat [buffer_slice pdf 0 br1,
                                 ''<'' @ signature @ ''>'',
                                 buffer_slice_from pdf br1]),
                    this'))))"

section \<open>\<open>sign\<close>\<close>

text \<open>
  Lines 40 to 159, on two buffers: the placement, the buffer that is signed (the
  \<open>/ByteRange\<close> rewritten, the placeholder cut out) and the DER bytes of the signature.
\<close>

definition prepare ::
  "toolkit \<Rightarrow> signpdf \<Rightarrow> buffer \<Rightarrow> buffer \<Rightarrow> sign_options
     \<Rightarrow> js_error + (placement \<times> buffer \<times> string)" where
  "prepare tk this pdfBuffer p12Buffer options =
     (let pdf = removeTrailingNewLine tk pdfBuffer
      in ebind (locate this pdf) (\<lambda>pl.
         ebind (rewrite_byteRange this pdf pl) (\<lambda>rewritten.
         ebind (build_signature tk (remove_placeholder rewritten pl) p12Buffer options) (\<lambda>raw.
         Inr (pl, remove_placeholder rewritten pl, raw)))))"

text \<open>
  \<open>SignPdf.sign(pdfBuffer, p12Buffer, additionalOptions)\<close>: what it returns (\<open>Inr\<close>) or throws
  (\<open>Inl\<close>), and the signer object afterwards.
\<close>

definition sign ::
  "toolkit \<Rightarrow> signpdf \<Rightarrow> js_value \<Rightarrow> js_value \<Rightarrow> additional_options
     \<Rightarrow> (js_error + buffer) \<times> signpdf" where
  "sign tk this pdfBuffer p12Buffer additionalOptions =
     (case pdfBuffer of
        Buffer pdfBytes \<Rightarrow>
          (case p12Buffer of
             Buffer p12Bytes \<Rightarrow>
               (case prepare tk this pdfBytes p12Bytes (merge_options additionalOptions) of
                  Inl err \<Rightarrow> (Inl err, this)
                | Inr (pl, pdf, raw) \<Rightarrow> embed this pdf pl raw)
           | _ \<Rightarrow> (Inl (SignPdfError ''p12 certificate expected as Buffer.'' TYPE_INPUT), this))
      | _ \<Rightarrow> (Inl (SignPdfError ''PDF expected as Buffer.'' TYPE_INPUT), this))"

section \<open>\<open>verify\<close>\<close>

text \<open>The object \<open>verify\<close> returns: \<open>{verified: true}\<close> or \<open>{verified: false, message: ...}\<close>.\<close>

record verification_result =
  verified :: bool
  message :: "string option"

text \<open>
  Reading the property \<open>value\<close>, and an index, of such a value: reading anything of
  \<open>undefined\<close> throws a \<open>TypeError\<close>, and a property that is not there reads as
  \<open>undefined\<close>. A string and an array have no property \<open>value\<close>, and an ASN.1 object has
  no numbered property.
\<close>

definition get_value :: "property \<Rightarrow> js_error + property" where
  "get_value v =
     (case v of
        Undef \<Rightarrow> Inl TypeError
      | Str s \<Rightarrow> Inr Undef
      | Arr xs \<Rightarrow> Inr Undef
      | Obj (Asn1 cls ty con (Bytes s)) \<Rightarrow> Inr (Str s)
      | Obj (Asn1 cls ty con (Children xs)) \<Rightarrow> Inr (Arr xs))"

definition get_index :: "property \<Rightarrow> nat \<Rightarrow> js_error + property" where
  "get_index v i =
     (case v of
        Undef \<Rightarrow> Inl TypeError
      | Str s \<Rightarrow> Inr (if i < length s then Str [s ! i] else Undef)
      | Arr xs \<Rightarrow> Inr (if i < length xs then Obj (xs ! i) else Undef)
      | Obj a \<Rightarrow> Inr Undef)"

text \<open>\<open>String.prototype.toUpperCase\<close> on ASCII text.\<close>

definition toUpperCase :: "string \<Rightarrow> string" where
  "toUpperCase s =
     map (\<lambda>c. if 97 \<le> (of_char c :: nat) \<and> (of_char c :: nat) \<le> 122
               then char_of ((of_char c :: nat) - 32) else c) s"

text \<open>\<open>forge.asn1.Class.UNIVERSAL\<close> and \<open>forge.asn1.Type.SET\<close>.\<close>

definition asn1_Class_UNIVERSAL :: nat where
  "asn1_Class_UNIVERSAL = 0"

definition asn1_Type_SET :: nat where
  "asn1_Type_SET = 17"

text \<open>Line 226, the test of \<open>attrs.find\<close>: \<open>forge.asn1.derToOid(attr.value[0].value)\<close>.\<close>

definition attr_oid :: "toolkit \<Rightarrow> asn1 \<Rightarrow> js_error + string" where
  "attr_oid tk attr =
     ebind (get_value (Obj attr)) (\<lambda>v.
     ebind (get_index v 0) (\<lambda>v0.
     ebind (get_value v0) (\<lambda>oidBytes.
     derToOid tk oidBytes)))"

text \<open>
  \<open>attrs.find(...)\<close>: the first attribute whose identifier is the wanted one, \<open>undefined\<close>
  when there is none; an exception of the test ends the search.
\<close>

fun find_attr :: "toolkit \<Rightarrow> string \<Rightarrow> asn1 list \<Rightarrow> js_error + property" where
  "find_attr tk wanted [] = Inr Undef"
| "find_attr tk wanted (attr # attrs) =
     (case attr_oid tk attr of
        Inl err \<Rightarrow> Inl err
      | Inr oid \<Rightarrow> if oid = wanted then Inr (Obj attr) else find_attr tk wanted attrs)"

text \<open>Line 227: \<open>fullAttrDigest.value[1].value[0].value\<close>.\<close>

definition attr_digest :: "property \<Rightarrow> js_error + property" where
  "attr_digest fullAttrDigest =
     ebind (get_value fullAttrDigest) (\<lambda>v.
     ebind (get_index v 1) (\<lambda>v1.
     ebind (get_value v1) (\<lambda>v1v.
     ebind (get_index v1v 0) (\<lambda>v1v0.
     get_value v1v0))))"

text \<open>
  Lines 197 to 217: from the document to the outcome of the signature check over the
  authenticated attributes; the signed bytes, the parsed message and the name of the hash
  algorithm go on to the second check. \<open>forge.pki.oids[...]\<close> of an unknown identifier is
  \<open>undefined\<close>, whose \<open>toUpperCase\<close> throws; so does \<open>certificateToPem\<close> of
  \<open>message.certificates[0]\<close> when the message has no certificate.
\<close>

definition check_attributes ::
  "toolkit \<Rightarrow> buffer \<Rightarrow> js_error + (buffer \<times> pkcs7_message \<times> string \<times> bool)" where
  "check_attributes tk pdfBuffer =
     ebind (extractSignature tk pdfBuffer) (\<lambda>(signature, signedData).
     ebind (fromDer tk signature) (\<lambda>p7Asn1.
     ebind (messageFromAsn1 tk p7Asn1) (\<lambda>msg.
     ebind (derToOid tk (Str (rawCapture_digestAlgorithm msg))) (\<lambda>hashAlgorithmOid.
     ebind (case oids tk hashAlgorithmOid of
              None \<Rightarrow> Inl TypeError
            | Some name \<Rightarrow> Inr (toUpperCase name)) (\<lambda>hashAlgorithm.
     ebind (toDer tk (Asn1 asn1_Class_UNIVERSAL asn1_Type_SET True
              (Children (rawCapture_authenticatedAttributes msg)))) (\<lambda>buf.
     ebind (case msg_certificates msg of
              [] \<Rightarrow> Inl TypeError
            | cert0 # _ \<Rightarrow> certificateToPem tk cert0) (\<lambda>cert.
     ebind (crypto_verify tk hashAlgorithm buf cert (rawCapture_signature msg))
       (\<lambda>validAuthenticatedAttributes.
     Inr (signedData, msg, hashAlgorithm, validAuthenticatedAttributes)))))))))"

text \<open>
  Lines 224 to 231: whether the digest of the signed bytes is the string that the
  \<open>messageDigest\<close> attribute carries (\<open>===\<close>: a value that is not a string is never equal).
\<close>

definition check_digest ::
  "toolkit \<Rightarrow> buffer \<Rightarrow> pkcs7_message \<Rightarrow> string \<Rightarrow> js_error + bool" where
  "check_digest tk signedData msg hashAlgorithm =
     ebind (find_attr tk oid_messageDigest (rawCapture_authenticatedAttributes msg))
       (\<lambda>fullAttrDigest.
     ebind (attr_digest fullAttrDigest) (\<lambda>attrDigest.
     ebind (crypto_hash tk hashAlgorithm signedData) (\<lambda>dataDigest.
     Inr (Str dataDigest = attrDigest))))"

text \<open>
  Lines 197 to 238, the body of the \<open>try\<close>: \<open>Inr\<close> is the returned object, \<open>Inl\<close> the
  exception that reaches the \<open>catch\<close>.
\<close>

definition verify_try :: "toolkit \<Rightarrow> buffer \<Rightarrow> js_error + verification_result" where
  "verify_try tk pdfBuffer =
     ebind (check_attributes tk pdfBuffer)
       (\<lambda>(signedData, msg, hashAlgorithm, validAuthenticatedAttributes).
     if \<not> validAuthenticatedAttributes
     then Inl (SignPdfError ''Wrong authenticated attributes'' VERIFY_SIGNATURE)
     else
     ebind (check_digest tk signedData msg hashAlgorithm) (\<lambda>validContentDigest.
     if \<not> validContentDigest
     then Inl (SignPdfError ''Wrong content digest'' VERIFY_SIGNATURE)
     else Inr \<lparr>verified = True, message = None\<rparr>))"

text \<open>Line 240, the \<open>catch\<close>: the message of a \<open>SignPdfError\<close>, a fixed text for any other.\<close>

definition catch_result :: "js_error \<Rightarrow> verification_result" where
  "catch_result err =
     \<lparr>verified = False,
      message = Some (case err of
                        SignPdfError msg ty \<Rightarrow> msg
                      | _ \<Rightarrow> ''couldn't verify file signature'')\<rparr>"

text \<open>
  \<open>SignPdf.verify(pdfBuffer)\<close>: the check of the argument stands before the \<open>try\<close>, so its
  exception leaves the function.
\<close>

definition verify :: "toolkit \<Rightarrow> js_value \<Rightarrow> js_error + verification_result" where
  "verify tk pdfBuffer =
     (case pdfBuffer of
        Buffer pdfBytes \<Rightarrow>
          (case verify_try tk pdfBytes of
             Inr res \<Rightarrow> Inr res
           | Inl err \<Rightarrow> Inr (catch_result err))
      | _ \<Rightarrow> Inl (SignPdfError ''PDF expected as Buffer.'' TYPE_INPUT))"

section \<open>Concrete collaborators and documents\<close>

text \<open>
  Modelled from the spec: \<open>removeTrailingNewLine\<close> of \<open>./helpers\<close> is called by \<open>sign\<close>
  (line 40) but is not among the sources, and the spec does not describe it. This instance
  follows its name: a buffer whose last byte is a line feed loses that byte, and any other
  buffer is returned as it is.
\<close>

definition strip_trailing_newline :: "buffer \<Rightarrow> buffer" where
  "strip_trailing_newline pdf =
     (case rev pdf of
        [] \<Rightarrow> pdf
      | c # _ \<Rightarrow> if c = CHR 0x0A then butlast pdf else pdf)"

text \<open>A key, and two certificates that both carry its modulus and exponent.\<close>

definition example_key :: rsa_private_key where
  "example_key = \<lparr>priv_n = 3233, priv_e = 17, priv_d = 2753\<rparr>"

definition example_cert_A :: certificate where
  "example_cert_A = \<lparr>publicKey = \<lparr>pub_n = 3233, pub_e = 17\<rparr>, cert_der = ''A''\<rparr>"

definition example_cert_B :: certificate where
  "example_cert_B = \<lparr>publicKey = \<lparr>pub_n = 3233, pub_e = 17\<rparr>, cert_der = ''B''\<rparr>"

definition example_cert_other :: certificate where
  "example_cert_other = \<lparr>publicKey = \<lparr>pub_n = 3127, pub_e = 17\<rparr>, cert_der = ''C''\<rparr>"

definition example_p12 :: pkcs12 where
  "example_p12 = \<lparr>certBags = [example_cert_A, example_cert_B], keyBags = [example_key]\<rparr>"

text \<open>An attribute set with a \<open>messageDigest\<close> attribute that carries \<open>digest\<close>.\<close>

definition example_attrs :: "string \<Rightarrow> asn1 list" where
  "example_attrs digest =
     [Asn1 0 16 True (Children
        [Asn1 0 6 False (Bytes oid_contentType),
         Asn1 0 17 True (Children [Asn1 0 6 False (Bytes oid_data)])]),
      Asn1 0 16 True (Children
        [Asn1 0 6 False (Bytes oid_messageDigest),
         Asn1 0 17 True (Children [Asn1 0 4 False (Bytes digest)])])]"

text \<open>A parsed message whose signature is \<open>sig\<close> and whose attributes carry \<open>digest\<close>.\<close>

definition example_message :: "string \<Rightarrow> string \<Rightarrow> pkcs7_message" where
  "example_message sig digest =
     \<lparr>rawCapture_signature = sig,
      rawCapture_authenticatedAttributes = example_attrs digest,
      rawCapture_digestAlgorithm = oid_sha256,
      msg_certificates = [example_cert_A]\<rparr>"

text \<open>
  A toolkit for evaluation. Its container always holds \<open>p12\<close>, and its signature is always
  the bytes \<open>der\<close>. It takes the whole document for the signed bytes; the message it parses
  is \<open>example_message sig digest\<close>; an identifier is its own encoding; the digest of a
  buffer is the buffer; a signature is good when it is the text \<open>good\<close>.
\<close>

definition example_toolkit :: "pkcs12 \<Rightarrow> string \<Rightarrow> string \<Rightarrow> string \<Rightarrow> toolkit" where
  "example_toolkit p12 der sig digest =
     \<lparr>removeTrailingNewLine = strip_trailing_newline,
      extractSignature = (\<lambda>pdf. Inr (der, pdf)),
      fromDer = (\<lambda>bytes. Inr (Asn1 0 4 False (Bytes bytes))),
      toDer = (\<lambda>obj. Inr der),
      pkcs12FromAsn1 = (\<lambda>obj strict pass. Inr p12),
      sign_toAsn1 = (\<lambda>p7. Inr (Asn1 0 16 True (Children []))),
      current_date = 0,
      messageFromAsn1 = (\<lambda>obj. Inr (example_message sig digest)),
      derToOid = (\<lambda>v. case v of Str s \<Rightarrow> Inr s | _ \<Rightarrow> Inl TypeError),
      oids = (\<lambda>oid. if oid = oid_sha256 then Some ''sha256'' else None),
      certificateToPem = (\<lambda>cert. Inr (cert_der cert)),
      crypto_verify = (\<lambda>alg buf cert s. Inr (s = ''good'')),
      crypto_hash = (\<lambda>alg buf. Inr buf)\<rparr>"

text \<open>The toolkit used where the container and the signature bytes do not matter.\<close>

definition plain_toolkit :: toolkit where
  "plain_toolkit = example_toolkit example_p12 ''0'' ''good'' ''x''"

text \<open>A toolkit whose signature check over the attributes fails.\<close>

definition bad_signature_toolkit :: toolkit where
  "bad_signature_toolkit = example_toolkit example_p12 ''0'' ''bad'' ''x''"

text \<open>A toolkit whose extraction helper throws a \<open>SignPdfError\<close> of its own.\<close>

definition no_signature_toolkit :: toolkit where
  "no_signature_toolkit =
     plain_toolkit\<lparr>extractSignature :=
       (\<lambda>pdf. Inl (SignPdfError ''Failed to locate ByteRange.'' TYPE_PARSE))\<rparr>"

text \<open>A toolkit whose DER parser throws an error of the toolkit.\<close>

definition bad_der_toolkit :: toolkit where
  "bad_der_toolkit =
     plain_toolkit\<lparr>fromDer := (\<lambda>bytes. Inl (LibraryError ''Too few bytes to parse DER.''))\<rparr>"

text \<open>A toolkit whose signature is three bytes long, and one whose container has no
  certificate for its key.\<close>

definition long_signature_toolkit :: toolkit where
  "long_signature_toolkit = example_toolkit example_p12 ''012'' ''good'' ''x''"

definition unmatched_toolkit :: toolkit where
  "unmatched_toolkit =
     example_toolkit \<lparr>certBags = [example_cert_other], keyBags = [example_key]\<rparr>
       ''0'' ''good'' ''x''"

text \<open>Documents: a well-formed one, and the same one with a line feed at its end.\<close>

definition example_pdf :: buffer where
  "example_pdf =
     ''%PDF /ByteRange [0 /********** /********** /**********] /Contents <0000> endobj''"

definition example_pdf_newline :: buffer where
  "example_pdf_newline = example_pdf @ [CHR 0x0A]"

text \<open>A placeholder of five hexadecimal digits.\<close>

definition example_pdf_odd :: buffer where
  "example_pdf_odd =
     ''%PDF /ByteRange [0 /********** /********** /**********] /Contents <00000> endobj''"

text \<open>No \<open>/Contents\<close> tag after the \<open>/ByteRange\<close> placeholder; the second ends with \<open>>\<close>.\<close>

definition example_pdf_no_contents :: buffer where
  "example_pdf_no_contents =
     ''%PDF /ByteRange [0 /********** /********** /**********] endobj''"

definition example_pdf_no_contents_gt :: buffer where
  "example_pdf_no_contents_gt =
     ''%PDF /ByteRange [0 /********** /********** /**********] >''"

text \<open>What lines 50 to 83 make of \<open>example_pdf_no_contents\<close>.\<close>

definition example_placement_no_contents :: placement where
  "example_placement_no_contents =
     \<lparr>byteRangePos = 5, byteRangeEnd = 55, contentsTagPos = - 1, placeholderPos = - 1,
      placeholderEnd = - 1, placeholderLengthWithBrackets = 1, placeholderLength = - 1,
      byteRange = (0, - 1, 0, 62)\<rparr>"

definition example_signed_bytes_no_contents :: buffer where
  "example_signed_bytes_no_contents =
     ''%PDF /ByteRange [0 -1 0 62]                             endob'' @
     ''%PDF /ByteRange [0 -1 0 62]                             endobj''"

definition no_options :: additional_options where
  "no_options = \<lparr>given_asn1StrictParsing = None, given_passphrase = None\<rparr>"

text \<open>What lines 50 to 77 make of \<open>example_pdf\<close> and of \<open>example_pdf_odd\<close>.\<close>

definition example_placement :: placement where
  "example_placement =
     \<lparr>byteRangePos = 5, byteRangeEnd = 55, contentsTagPos = 56, placeholderPos = 66,
      placeholderEnd = 71, placeholderLengthWithBrackets = 6, placeholderLength = 4,
      byteRange = (0, 66, 72, 7)\<rparr>"

definition example_rewritten :: buffer where
  "example_rewritten =
     ''%PDF /ByteRange [0 66 72 7]                             /Contents <0000> endobj''"

definition example_signed_bytes :: buffer where
  "example_signed_bytes =
     ''%PDF /ByteRange [0 66 72 7]                             /Contents  endobj''"

definition example_placement_odd :: placement where
  "example_placement_odd =
     \<lparr>byteRangePos = 5, byteRangeEnd = 55, contentsTagPos = 56, placeholderPos = 66,
      placeholderEnd = 72, placeholderLengthWithBrackets = 7, placeholderLength = 5,
      byteRange = (0, 66, 73, 7)\<rparr>"

definition example_signed_bytes_odd :: buffer where
  "example_signed_bytes_odd =
     ''%PDF /ByteRange [0 66 73 7]                             /Contents  endobj''"

section \<open>Reading a signed document back\<close>

text \<open>
  Modelled from the spec: \<open>extractSignature\<close> of \<open>./helpers\<close> is called by \<open>verify\<close>
  (line 197) but is not among the sources. The spec says of it that it "must read the real
  \<open>/ByteRange\<close> already present in a signed document and return exactly the two spans of
  bytes it denotes, concatenated in order, as the digest input". \<open>signed_spans\<close> is these
  two spans for a given array, taken with \<open>buf.slice\<close>.
\<close>

definition signed_spans :: "buffer \<Rightarrow> int \<times> int \<times> int \<times> int \<Rightarrow> buffer" where
  "signed_spans pdf ranges =
     (case ranges of (start0, len0, start1, len1) \<Rightarrow>
        concat [buffer_slice pdf start0 (start0 + len0),
                buffer_slice pdf start1 (start1 + len1)])"

text \<open>
  Modelled from the spec (a part of the extraction): the decimal number a text starts with,
  and the text after it.
\<close>

fun read_number :: "string \<Rightarrow> nat \<Rightarrow> nat \<times> string" where
  "read_number [] acc = (acc, [])"
| "read_number (c # cs) acc =
     (if 48 \<le> (of_char c :: nat) \<and> (of_char c :: nat) \<le> 57
      then read_number cs (10 * acc + ((of_char c :: nat) - 48))
      else (acc, c # cs))"

text \<open>
  Modelled from the spec (a part of the extraction): the four numbers of the first
  \<open>/ByteRange [a b c d]\<close> of a document.
\<close>

definition read_byteRange :: "buffer \<Rightarrow> (int \<times> int \<times> int \<times> int) option" where
  "read_byteRange pdf =
     (let pos = buffer_indexOf pdf ''/ByteRange ['' 0
      in if pos = - 1 then None
         else
           (case read_number (drop (nat pos + 12) pdf) 0 of (a, rest_a) \<Rightarrow>
            case read_number (dropWhile (\<lambda>c. c = CHR '' '') rest_a) 0 of (b, rest_b) \<Rightarrow>
            case read_number (dropWhile (\<lambda>c. c = CHR '' '') rest_b) 0 of (c, rest_c) \<Rightarrow>
            case read_number (dropWhile (\<lambda>c. c = CHR '' '') rest_c) 0 of (d, rest_d) \<Rightarrow>
              Some (int a, int b, int c, int d)))"

text \<open>
  Modelled from the spec (a part of the extraction): the bytes that a text of hexadecimal
  digits stands for.
\<close>

definition hex_value :: "char \<Rightarrow> nat" where
  "hex_value c =
     (if (of_char c :: nat) \<le> 57 then (of_char c :: nat) - 48 else (of_char c :: nat) - 87)"

fun hex_decode :: "string \<Rightarrow> buffer" where
  "hex_decode (a # b # rest) = char_of (16 * hex_value a + hex_value b) # hex_decode rest"
| "hex_decode rest = []"

text \<open>
  Modelled from the spec: \<open>extractSignature\<close> as the spec describes it. The signature is
  what stands between the two spans, without its brackets; the signed bytes are the two
  spans. A document without a \<open>/ByteRange\<close> makes it throw (the spec does not say what).
\<close>

definition modelled_extractSignature :: "buffer \<Rightarrow> js_error + (string \<times> buffer)" where
  "modelled_extractSignature pdf =
     (case read_byteRange pdf of
        None \<Rightarrow> Inl (SignPdfError ''Failed to locate ByteRange.'' TYPE_PARSE)
      | Some (start0, len0, start1, len1) \<Rightarrow>
          Inr (hex_decode (buffer_slice pdf (start0 + len0 + 1) (start1 - 1)),
               signed_spans pdf (start0, len0, start1, len1)))"

text \<open>
  A toolkit for a round trip: the extraction above, and a parsed message that carries
  \<open>digest\<close> (the digest of a buffer being the buffer, \<open>digest\<close> stands for the bytes that
  were signed).
\<close>

definition round_trip_toolkit :: "string \<Rightarrow> toolkit" where
  "round_trip_toolkit digest =
     (example_toolkit example_p12 ''0'' ''good'' digest)
       \<lparr>extractSignature := modelled_extractSignature\<rparr>"

definition example_signed :: buffer where
  "example_signed =
     ''%PDF /ByteRange [0 66 72 7]                             /Contents <3000> endobj''"

definition example_signed_odd :: buffer where
  "example_signed_odd =
     ''%PDF /ByteRange [0 66 73 7]                             /Contents <3000> endobj''"

section \<open>Facts about the primitives\<close>

lemma ebind_Inl [simp]: "ebind (Inl err) f = Inl err"
  by (simp add: ebind_def)

lemma ebind_Inr [simp]: "ebind (Inr x) f = f x"
  by (simp add: ebind_def)

lemma ebind_eq_Inr: "ebind m f = Inr y \<longleftrightarrow> (\<exists>x. m = Inr x \<and> f x = Inr y)"
  by (cases m) simp_all

lemma find_from_range:
  "find_from needle hay k = - 1 \<or>
   (int k \<le> find_from needle hay k \<and>
    find_from needle hay k + int (length needle) \<le> int k + int (length hay))"
proof (induction hay arbitrary: k)
  case Nil
  show ?case by simp
next
  case (Cons h hay)
  show ?case
  proof (cases "prefix needle (h # hay)")
    case True
    then have "length needle \<le> length (h # hay)" by (rule prefix_length_le)
    with True show ?thesis by simp
  next
    case False
    with Cons [of "Suc k"] show ?thesis by auto
  qed
qed

lemma find_from_match:
  "find_from needle hay k \<noteq> - 1 \<Longrightarrow>
   prefix needle (drop (nat (find_from needle hay k) - k) hay)"
proof (induction hay arbitrary: k)
  case Nil
  then show ?case by simp
next
  case (Cons h hay)
  show ?case
  proof (cases "prefix needle (h # hay)")
    case True
    then show ?thesis by simp
  next
    case False
    with Cons.prems have ne: "find_from needle hay (Suc k) \<noteq> - 1" by simp
    from find_from_range [of needle hay "Suc k"] ne
    have ge: "int (Suc k) \<le> find_from needle hay (Suc k)" by auto
    then have "nat (find_from needle hay (Suc k)) - k = Suc (nat (find_from needle hay (Suc k)) - Suc k)"
      by linarith
    with Cons.IH [OF ne] False show ?thesis by simp
  qed
qed

lemma buffer_indexOf_range:
  assumes "val \<noteq> []"
  shows "buffer_indexOf buf val off = - 1 \<or>
         (0 \<le> buffer_indexOf buf val off \<and>
          buffer_indexOf buf val off + int (length val) \<le> int (length buf))"
proof -
  define start where
    "start = (if off < 0 then (if 0 \<le> off + int (length buf) then int (length buf) + off else 0)
             else if off + int (length val) \<le> int (length buf) then off
             else if int (length val) = 0 then int (length buf)
             else - 1)"
  show ?thesis
  proof (cases "int (length buf) = 0 \<or> start \<le> - 1")
    case True
    with assms show ?thesis
      by (auto simp: buffer_indexOf_def Let_def start_def)
  next
    case False
    then have s: "0 \<le> start" "buf \<noteq> []" by auto
    have le: "start \<le> int (length buf)"
      using s by (auto simp: start_def split: if_splits)
    have eq: "buffer_indexOf buf val off = find_from val (drop (nat start) buf) (nat start)"
      using assms False by (simp add: buffer_indexOf_def Let_def start_def)
    from find_from_range [of val "drop (nat start) buf" "nat start"] s le
    show ?thesis unfolding eq by auto
  qed
qed

lemma buffer_indexOf_from_last:
  assumes "buf \<noteq> []"
  shows "buffer_indexOf buf [c] (- 1) = (if last buf = c then int (length buf) - 1 else - 1)"
proof -
  from assms have len: "0 < length buf" by simp
  have d: "drop (length buf - Suc 0) buf = [last buf]"
    using assms by (metis One_nat_def append_butlast_last_id append_eq_conv_conj length_butlast)
  have n: "nat (int (length buf) - 1) = length buf - Suc 0" using len by linarith
  have "buffer_indexOf buf [c] (- 1) = find_from [c] [last buf] (length buf - Suc 0)"
    using len by (simp add: buffer_indexOf_def Let_def n d)
  also have "\<dots> = (if last buf = c then int (length buf) - 1 else - 1)"
  proof -
    have "int (length buf - Suc 0) = int (length buf) - 1" using len by linarith
    then show ?thesis by auto
  qed
  finally show ?thesis .
qed

lemma buffer_indexOf_found:
  assumes val: "val \<noteq> []"
    and found: "buffer_indexOf buf val off \<noteq> - 1"
  shows "prefix val (drop (nat (buffer_indexOf buf val off)) buf)"
    and "0 \<le> off \<Longrightarrow> off \<le> buffer_indexOf buf val off"
proof -
  define start where
    "start = (if off < 0 then (if 0 \<le> off + int (length buf) then int (length buf) + off else 0)
             else if off + int (length val) \<le> int (length buf) then off
             else if int (length val) = 0 then int (length buf)
             else - 1)"
  have ok: "\<not> (int (length buf) = 0 \<or> start \<le> - 1)"
    using val found by (auto simp: buffer_indexOf_def Let_def start_def split: if_splits)
  then have s0: "0 \<le> start" by auto
  have eq: "buffer_indexOf buf val off = find_from val (drop (nat start) buf) (nat start)"
    using val ok by (simp add: buffer_indexOf_def Let_def start_def)
  let ?r = "find_from val (drop (nat start) buf) (nat start)"
  from found have ne: "?r \<noteq> - 1" by (simp add: eq)
  from find_from_range [of val "drop (nat start) buf" "nat start"] ne
  have ge: "int (nat start) \<le> ?r" by auto
  then have n: "nat ?r - nat start + nat start = nat ?r" by linarith
  from find_from_match [OF ne]
  have "prefix val (drop (nat ?r - nat start) (drop (nat start) buf))" .
  then show "prefix val (drop (nat (buffer_indexOf buf val off)) buf)"
    by (simp add: eq n)
  show "off \<le> buffer_indexOf buf val off" if "0 \<le> off"
  proof -
    from that ok val have "start = off" by (auto simp: start_def split: if_splits)
    with ge s0 show ?thesis by (simp add: eq)
  qed
qed

lemma buffer_indexOf_char:
  assumes "buffer_indexOf buf [c] off \<noteq> - 1"
  shows "buf ! nat (buffer_indexOf buf [c] off) = c"
    and "0 \<le> buffer_indexOf buf [c] off"
    and "buffer_indexOf buf [c] off < int (length buf)"
proof -
  let ?r = "buffer_indexOf buf [c] off"
  from buffer_indexOf_range [of "[c]" buf off] assms
  show r: "0 \<le> ?r" and lt: "?r < int (length buf)" by auto
  from buffer_indexOf_found(1) [OF _ assms]
  have "prefix [c] (drop (nat ?r) buf)" by simp
  then obtain rest where "drop (nat ?r) buf = c # rest" by (auto simp: prefix_def)
  moreover have "nat ?r < length buf" using r lt by linarith
  ultimately show "buf ! nat ?r = c" by (metis nth_via_drop)
qed

lemma digits_length: "0 < k \<Longrightarrow> n < 10 ^ k \<Longrightarrow> length (digits n) \<le> k"
proof (induction k arbitrary: n)
  case 0
  then show ?case by simp
next
  case (Suc k)
  show ?case
  proof (cases "n < 10")
    case True
    then show ?thesis by (simp add: digits.simps [of n])
  next
    case False
    then have k: "0 < k" using Suc.prems by (cases k) auto
    have "n div 10 < 10 ^ k" using Suc.prems by (simp add: less_mult_imp_div_less mult.commute)
    from Suc.IH [OF k this] False show ?thesis by (simp add: digits.simps [of n])
  qed
qed

lemma number_toString_length:
  assumes "- 1 \<le> i" and "i < 10 ^ 11"
  shows "length (number_toString i) \<le> 11"
proof (cases "i < 0")
  case True
  with assms have "i = - 1" by simp
  then show ?thesis by (simp add: number_toString_def digits.simps [of "Suc 0"])
next
  case False
  with assms have "nat i < 10 ^ 11" by (simp add: nat_less_iff)
  from digits_length [OF _ this] False show ?thesis by (simp add: number_toString_def)
qed

lemma adjustOffset_inside: "0 \<le> a \<Longrightarrow> a \<le> len \<Longrightarrow> adjustOffset a len = a"
  by (simp add: adjustOffset_def)

lemma buffer_slice_take:
  "0 \<le> a \<Longrightarrow> a \<le> int (length buf) \<Longrightarrow> buffer_slice buf 0 a = take (nat a) buf"
  by (simp add: buffer_slice_def Let_def adjustOffset_inside)

lemma buffer_slice_from_drop:
  assumes "0 \<le> a" and "a \<le> int (length buf)"
  shows "buffer_slice_from buf a = drop (nat a) buf"
proof -
  have "length buf - nat a \<le> nat (int (length buf) - a)" using assms by linarith
  with assms show ?thesis
    by (simp add: buffer_slice_from_def buffer_slice_def Let_def adjustOffset_inside)
qed

lemma buffer_slice_to_end:
  assumes "0 \<le> s" and "s \<le> int (length buf)"
  shows "buffer_slice buf s (int (length buf)) = drop (nat s) buf"
  using buffer_slice_from_drop [OF assms] by (simp add: buffer_slice_from_def)

lemma buffer_slice_past_end:
  assumes "0 \<le> s" and "s \<le> int (length buf)" and "int (length buf) \<le> e"
  shows "buffer_slice buf s e = drop (nat s) buf"
proof -
  have a1: "adjustOffset s (int (length buf)) = s"
    using assms by (simp add: adjustOffset_def)
  have a2: "adjustOffset e (int (length buf)) = int (length buf)"
    using assms by (simp add: adjustOffset_def)
  have "length buf - nat s \<le> nat (int (length buf) - s)" using assms by linarith
  then show ?thesis by (simp add: buffer_slice_def Let_def a1 a2)
qed

lemma buffer_slice_beyond:
  assumes "int (length buf) \<le> s" and "int (length buf) \<le> e"
  shows "buffer_slice buf s e = []"
proof -
  have a1: "adjustOffset s (int (length buf)) = int (length buf)"
    using assms by (simp add: adjustOffset_def)
  have a2: "adjustOffset e (int (length buf)) = int (length buf)"
    using assms by (simp add: adjustOffset_def)
  show ?thesis by (simp add: buffer_slice_def Let_def a1 a2)
qed

lemma js_repeat_int:
  "js_repeat s (of_int k) = (if k < 0 then Inl RangeError else Inr (concat (replicate (nat k) s)))"
  by (simp add: js_repeat_def Let_def)

lemma concat_replicate_single: "concat (replicate k [c]) = replicate k c"
  by (induction k) simp_all

lemma number_toString_0: "number_toString 0 = ''0''"
  by code_simp

lemma toString_hex_length: "length (toString_hex buf) = 2 * length buf"
  by (induction buf) (simp_all add: toString_hex_def)

lemma truncated_half:
  assumes "int r * 2 \<le> L"
  shows "(of_int L :: rat) / 2 - of_int (int r) \<ge> 0"
    and "\<lfloor>(of_int L :: rat) / 2 - of_int (int r)\<rfloor> = L div 2 - int r"
proof -
  have "(of_int (int r * 2) :: rat) \<le> of_int L" using assms by (simp only: of_int_le_iff)
  then show "(of_int L :: rat) / 2 - of_int (int r) \<ge> 0" by simp
  have "\<lfloor>(of_int L :: rat) / 2 - of_int (int r)\<rfloor> = \<lfloor>(of_int L :: rat) / of_int 2\<rfloor> - int r"
    by (simp only: floor_diff_of_int of_int_numeral)
  also have "\<dots> = L div 2 - int r" by (simp only: floor_divide_of_int_eq)
  finally show "\<lfloor>(of_int L :: rat) / 2 - of_int (int r)\<rfloor> = L div 2 - int r" .
qed

lemma strip_trailing_newline_length:
  "int (length (strip_trailing_newline pdf)) =
     int (length pdf) - (if pdf \<noteq> [] \<and> last pdf = CHR 0x0A then 1 else 0)"
proof (cases pdf rule: rev_cases)
  case Nil
  then show ?thesis by (simp add: strip_trailing_newline_def)
next
  case (snoc front c)
  then show ?thesis by (simp add: strip_trailing_newline_def)
qed

section \<open>Facts about the stages of \<open>sign\<close>\<close>

lemma byteRangeString_default:
  "byteRangePlaceholder this = DEFAULT_BYTE_RANGE_PLACEHOLDER \<Longrightarrow>
   byteRangeString this = ''/ByteRange [0 /********** /********** /**********]''"
  by (simp add: byteRangeString_def DEFAULT_BYTE_RANGE_PLACEHOLDER_def number_toString_0)

lemma byteRangeString_nonempty: "byteRangeString this \<noteq> []"
  by (simp add: byteRangeString_def)

lemma locate_Inr:
  assumes "locate this pdf = Inr pl"
  shows "byteRangePos pl = buffer_indexOf pdf (byteRangeString this) 0"
    and "byteRangePos pl \<noteq> - 1"
    and "byteRangeEnd pl = byteRangePos pl + int (length (byteRangeString this))"
    and "contentsTagPos pl = buffer_indexOf pdf ''/Contents '' (byteRangeEnd pl)"
    and "placeholderPos pl = buffer_indexOf pdf ''<'' (contentsTagPos pl)"
    and "placeholderEnd pl = buffer_indexOf pdf ''>'' (placeholderPos pl)"
    and "placeholderLengthWithBrackets pl = placeholderEnd pl + 1 - placeholderPos pl"
    and "placeholderLength pl = placeholderLengthWithBrackets pl - 2"
    and "byteRange pl =
           (0, placeholderPos pl, placeholderPos pl + placeholderLengthWithBrackets pl,
            int (length pdf) - (placeholderPos pl + placeholderLengthWithBrackets pl))"
  using assms by (auto simp: locate_def Let_def split: if_splits)

lemma locate_byteRangePos_range:
  assumes "locate this pdf = Inr pl"
  shows "0 \<le> byteRangePos pl"
    and "byteRangeEnd pl \<le> int (length pdf)"
proof -
  from buffer_indexOf_range [OF byteRangeString_nonempty, of pdf this 0] locate_Inr(1,2) [OF assms]
  have "0 \<le> byteRangePos pl \<and>
        byteRangePos pl + int (length (byteRangeString this)) \<le> int (length pdf)"
    by auto
  then show "0 \<le> byteRangePos pl" and "byteRangeEnd pl \<le> int (length pdf)"
    by (simp_all add: locate_Inr(3) [OF assms])
qed

lemma locate_placeholder_range:
  assumes "locate this pdf = Inr pl"
  shows "- 1 \<le> placeholderPos pl" and "placeholderPos pl < int (length pdf)"
    and "- 1 \<le> placeholderEnd pl" and "placeholderEnd pl < int (length pdf)"
proof -
  have nonempty: "0 < int (length pdf)"
    using locate_byteRangePos_range [OF assms] locate_Inr(3) [OF assms]
      byteRangeString_nonempty [of this] by (cases "byteRangeString this") auto
  from buffer_indexOf_range [of "''<''" pdf "contentsTagPos pl"] nonempty
  show "- 1 \<le> placeholderPos pl" and "placeholderPos pl < int (length pdf)"
    by (auto simp: locate_Inr(5) [OF assms])
  from buffer_indexOf_range [of "''>''" pdf "placeholderPos pl"] nonempty
  show "- 1 \<le> placeholderEnd pl" and "placeholderEnd pl < int (length pdf)"
    by (auto simp: locate_Inr(6) [OF assms])
qed

lemma actualByteRange_length:
  assumes len: "length pdf < 10 ^ 11" and loc: "locate this pdf = Inr pl"
  shows "length (actualByteRange pl) \<le> 50"
proof -
  note r = locate_placeholder_range [OF loc]
  have "int (length pdf) < int (10 ^ 11)" using len by (simp only: of_nat_less_iff)
  then have n: "int (length pdf) < 10 ^ 11" by simp
  have b1: "length (number_toString (placeholderPos pl)) \<le> 11"
    using r n by (intro number_toString_length) auto
  have eq2: "placeholderPos pl + placeholderLengthWithBrackets pl = placeholderEnd pl + 1"
    by (simp add: locate_Inr(7) [OF loc])
  have b2: "length (number_toString (placeholderEnd pl + 1)) \<le> 11"
    using r n by (intro number_toString_length) auto
  have b3: "length (number_toString (int (length pdf) - (placeholderEnd pl + 1))) \<le> 11"
    using r n by (intro number_toString_length) auto
  show ?thesis
    using b1 b2 b3
    by (simp add: actualByteRange_def locate_Inr(9) [OF loc] eq2 number_toString_0)
qed

lemma actualByteRange_text:
  assumes "byteRange pl = (br0, br1, br2, br3)"
  shows "actualByteRange pl =
           ''/ByteRange ['' @ number_toString br0 @ '' '' @ number_toString br1 @ '' '' @
           number_toString br2 @ '' '' @ number_toString br3 @ '']''"
  using assms by (simp add: actualByteRange_def)

lemma rewrite_byteRange_Inr:
  assumes loc: "locate this pdf = Inr pl"
    and rew: "rewrite_byteRange this pdf pl = Inr rewritten"
  shows "length (actualByteRange pl) \<le> length (byteRangeString this)"
    and "rewritten =
           take (nat (byteRangePos pl)) pdf @
           (actualByteRange pl @
            replicate (length (byteRangeString this) - length (actualByteRange pl)) CHR '' '') @
           drop (nat (byteRangePos pl) + length (byteRangeString this)) pdf"
    and "nat (byteRangePos pl) + length (byteRangeString this) \<le> length pdf"
    and "nat (byteRangeEnd pl) = nat (byteRangePos pl) + length (byteRangeString this)"
proof -
  let ?w = "length (byteRangeString this)"
  let ?a = "length (actualByteRange pl)"
  let ?p = "nat (byteRangePos pl)"
  note rng = locate_byteRangePos_range [OF loc]
  show e: "nat (byteRangeEnd pl) = ?p + ?w"
    using rng by (simp add: locate_Inr(3) [OF loc] nat_add_distrib)
  show pe: "?p + ?w \<le> length pdf" using rng e by linarith
  have s1: "buffer_slice pdf 0 (byteRangePos pl) = take ?p pdf"
    using rng pe by (intro buffer_slice_take) linarith+
  have s2: "buffer_slice_from pdf (byteRangeEnd pl) = drop (?p + ?w) pdf"
    using rng e by (subst buffer_slice_from_drop) (simp_all add: locate_Inr(3) [OF loc])
  from rew show fits: "?a \<le> ?w"
    unfolding rewrite_byteRange_def js_repeat_int by (auto split: if_splits)
  from rew show "rewritten =
      take ?p pdf @ (actualByteRange pl @ replicate (?w - ?a) CHR '' '') @ drop (?p + ?w) pdf"
    unfolding rewrite_byteRange_def js_repeat_int
    by (auto simp: concat_replicate_single s1 s2 nat_diff_distrib split: if_splits)
qed

lemma rewrite_byteRange_length:
  assumes loc: "locate this pdf = Inr pl"
    and rew: "rewrite_byteRange this pdf pl = Inr rewritten"
  shows "length rewritten = length pdf"
  using rewrite_byteRange_Inr(1,3) [OF assms]
  by (simp add: rewrite_byteRange_Inr(2) [OF assms])

lemma rewrite_byteRange_fits:
  assumes "length (actualByteRange pl) \<le> length (byteRangeString this)"
  shows "\<exists>rewritten. rewrite_byteRange this pdf pl = Inr rewritten"
  unfolding rewrite_byteRange_def js_repeat_int using assms by simp

lemma remove_placeholder_inside:
  assumes br: "byteRange pl = (0, p, p + wd, int (length pdf) - (p + wd))"
    and "0 \<le> p" and "0 \<le> wd" and "p + wd \<le> int (length pdf)"
  shows "remove_placeholder pdf pl = take (nat p) pdf @ drop (nat (p + wd)) pdf"
proof -
  have s1: "buffer_slice pdf 0 p = take (nat p) pdf"
    using assms by (intro buffer_slice_take) linarith+
  have s2: "buffer_slice pdf (p + wd) (int (length pdf)) = drop (nat (p + wd)) pdf"
    using assms by (intro buffer_slice_to_end) linarith+
  show ?thesis by (simp add: remove_placeholder_def br s1 s2)
qed

lemma fold_forEach_certBag:
  "fold (forEach_certBag privateKey) certs (p7, kept) =
     (p7\<lparr>p7_certificates := p7_certificates p7 @ certs\<rparr>,
      case filter (matches_private_key privateKey) certs of
        [] \<Rightarrow> kept
      | c # cs \<Rightarrow> Some (last (c # cs)))"
proof (induction certs arbitrary: p7 kept)
  case Nil
  show ?case by simp
next
  case (Cons cert certs)
  have step: "forEach_certBag privateKey cert (p7, kept) =
      (p7\<lparr>p7_certificates := p7_certificates p7 @ [cert]\<rparr>,
       if matches_private_key privateKey cert then Some cert else kept)"
    by (simp add: forEach_certBag_def)
  show ?case
    by (simp add: step Cons.IH split: list.splits)
qed

lemma signing_message_last_match:
  assumes "keyBags p12 = privateKey # others"
  shows "signing_message tk pdf p12 =
     (case filter (matches_private_key privateKey) (certBags p12) of
        [] \<Rightarrow> Inl (SignPdfError
                 ''Failed to find a certificate that matches the private key.'' TYPE_INPUT)
      | c # cs \<Rightarrow>
          Inr \<lparr>p7_content = pdf, p7_certificates = certBags p12,
               p7_signers = [make_signer tk privateKey (last (c # cs))]\<rparr>)"
  using assms
  by (simp add: signing_message_def fold_forEach_certBag split: list.splits)

lemma padded_signature_fits:
  assumes "int (length raw) * 2 \<le> L"
  shows "padded_signature raw L =
           Inr (toString_hex raw @ toString_hex (replicate (nat (L div 2 - int (length raw))) CHR 0x00))"
proof -
  from truncated_half [OF assms]
  have "js_repeat [CHR 0x00] (of_int L / 2 - of_int (int (length raw))) =
      Inr (replicate (nat (L div 2 - int (length raw))) CHR 0x00)"
    using assms by (simp add: js_repeat_def Let_def concat_replicate_single not_less)
  then show ?thesis by (simp add: padded_signature_def)
qed

lemma padded_signature_length:
  assumes "int (length raw) * 2 \<le> L"
  shows "\<exists>payload. padded_signature raw L = Inr payload \<and> int (length payload) = 2 * (L div 2)"
proof -
  have "int (length raw) \<le> L div 2" using assms by linarith
  then show ?thesis
    by (simp add: padded_signature_fits [OF assms] toString_hex_length)
qed

lemma embed_Inr:
  assumes "embed this pdf pl raw = (Inr signed, this')"
  shows "int (length raw) * 2 \<le> placeholderLength pl"
    and "\<exists>payload. padded_signature raw (placeholderLength pl) = Inr payload \<and>
           int (length payload) = 2 * (placeholderLength pl div 2) \<and>
           signed = buffer_slice pdf 0 (fst (snd (byteRange pl))) @ ''<'' @ payload @ ''>'' @
                    buffer_slice_from pdf (fst (snd (byteRange pl)))"
proof -
  from assms show fits: "int (length raw) * 2 \<le> placeholderLength pl"
    by (auto simp: embed_def split: if_splits)
  from padded_signature_length [OF fits] obtain payload where
    p: "padded_signature raw (placeholderLength pl) = Inr payload"
    and l: "int (length payload) = 2 * (placeholderLength pl div 2)"
    by blast
  from assms fits p
  have "signed = buffer_slice pdf 0 (fst (snd (byteRange pl))) @ ''<'' @ payload @ ''>'' @
      buffer_slice_from pdf (fst (snd (byteRange pl)))"
    by (auto simp: embed_def Let_def split: prod.splits)
  with p l show "\<exists>payload. padded_signature raw (placeholderLength pl) = Inr payload \<and>
           int (length payload) = 2 * (placeholderLength pl div 2) \<and>
           signed = buffer_slice pdf 0 (fst (snd (byteRange pl))) @ ''<'' @ payload @ ''>'' @
                    buffer_slice_from pdf (fst (snd (byteRange pl)))"
    by blast
qed

lemma prepare_Inr:
  assumes "prepare tk this pdfBytes p12Bytes options = Inr (pl, pdf, raw)"
  shows "\<exists>rewritten.
           locate this (removeTrailingNewLine tk pdfBytes) = Inr pl \<and>
           rewrite_byteRange this (removeTrailingNewLine tk pdfBytes) pl = Inr rewritten \<and>
           pdf = remove_placeholder rewritten pl \<and>
           build_signature tk pdf p12Bytes options = Inr raw"
  using assms by (auto simp: prepare_def Let_def ebind_eq_Inr)

lemma sign_Inr:
  assumes "sign tk this (Buffer pdfBytes) (Buffer p12Bytes) opts = (Inr signed, this')"
  shows "\<exists>pl pdf raw.
           prepare tk this pdfBytes p12Bytes (merge_options opts) = Inr (pl, pdf, raw) \<and>
           embed this pdf pl raw = (Inr signed, this')"
  using assms by (auto simp: sign_def split: sum.splits)

lemma signed_layout:
  assumes loc: "locate this trimmed = Inr pl"
    and rew: "rewrite_byteRange this trimmed pl = Inr rewritten"
    and emb: "embed this (remove_placeholder rewritten pl) pl raw = (Inr signed, this')"
    and found: "0 \<le> placeholderPos pl"
  shows "\<exists>payload.
           signed = take (nat (placeholderPos pl)) (remove_placeholder rewritten pl) @
                    ''<'' @ payload @ ''>'' @
                    drop (nat (placeholderPos pl)) (remove_placeholder rewritten pl) \<and>
           int (length payload) = 2 * (placeholderLength pl div 2) \<and>
           0 \<le> placeholderLength pl \<and>
           placeholderPos pl + placeholderLength pl + 2 \<le> int (length trimmed) \<and>
           int (length (remove_placeholder rewritten pl)) =
             int (length trimmed) - (placeholderLength pl + 2)"
proof -
  let ?p = "placeholderPos pl"
  let ?wd = "placeholderLengthWithBrackets pl"
  let ?L = "placeholderLength pl"
  let ?pdf = "remove_placeholder rewritten pl"
  have len: "length rewritten = length trimmed" by (rule rewrite_byteRange_length [OF loc rew])
  note fits = embed_Inr(1) [OF emb]
  from embed_Inr(2) [OF emb] obtain payload where
    l: "int (length payload) = 2 * (?L div 2)"
    and s: "signed = buffer_slice ?pdf 0 (fst (snd (byteRange pl))) @ ''<'' @ payload @ ''>'' @
                    buffer_slice_from ?pdf (fst (snd (byteRange pl)))"
    by blast
  have L: "0 \<le> ?L" using fits by linarith
  have wd: "?wd = ?L + 2" by (simp add: locate_Inr(8) [OF loc])
  have "?p + ?wd = placeholderEnd pl + 1" by (simp add: locate_Inr(7) [OF loc])
  with locate_placeholder_range(4) [OF loc]
  have inside: "?p + ?wd \<le> int (length rewritten)" by (simp add: len)
  have br: "byteRange pl = (0, ?p, ?p + ?wd, int (length rewritten) - (?p + ?wd))"
    by (simp add: locate_Inr(9) [OF loc] len)
  have wd0: "0 \<le> ?wd" using wd L by linarith
  have r: "?pdf = take (nat ?p) rewritten @ drop (nat (?p + ?wd)) rewritten"
    by (rule remove_placeholder_inside [OF br found wd0 inside])
  have rl: "int (length ?pdf) = int (length rewritten) - ?wd"
    using found wd0 inside by (simp add: r)
  have p_in: "?p \<le> int (length ?pdf)" using rl inside by linarith
  have b1: "fst (snd (byteRange pl)) = ?p" by (simp add: br)
  have s1: "buffer_slice ?pdf 0 ?p = take (nat ?p) ?pdf"
    by (rule buffer_slice_take [OF found p_in])
  have s2: "buffer_slice_from ?pdf ?p = drop (nat ?p) ?pdf"
    by (rule buffer_slice_from_drop [OF found p_in])
  have s': "signed = take (nat ?p) ?pdf @ ''<'' @ payload @ ''>'' @ drop (nat ?p) ?pdf"
    unfolding s b1 s1 s2 ..
  have i: "?p + ?L + 2 \<le> int (length trimmed)" using inside wd len by simp
  have rl': "int (length ?pdf) = int (length trimmed) - (?L + 2)" using rl wd len by simp
  from s' l L i rl' show ?thesis by blast
qed

lemma signed_length:
  assumes loc: "locate this trimmed = Inr pl"
    and rew: "rewrite_byteRange this trimmed pl = Inr rewritten"
    and emb: "embed this (remove_placeholder rewritten pl) pl raw = (Inr signed, this')"
    and found: "0 \<le> placeholderPos pl"
  shows "int (length signed) = int (length trimmed) - placeholderLength pl mod 2"
proof -
  let ?p = "placeholderPos pl"
  let ?L = "placeholderLength pl"
  let ?pdf = "remove_placeholder rewritten pl"
  from signed_layout [OF assms] obtain payload where
    s: "signed = take (nat ?p) ?pdf @ ''<'' @ payload @ ''>'' @ drop (nat ?p) ?pdf"
    and l: "int (length payload) = 2 * (?L div 2)"
    and rl: "int (length ?pdf) = int (length trimmed) - (?L + 2)"
    and i: "?p + ?L + 2 \<le> int (length trimmed)"
    by blast
  have p_in: "?p \<le> int (length ?pdf)" using rl i by linarith
  have "int (length signed) = int (length ?pdf) + 2 + int (length payload)"
    unfolding s using found p_in by simp
  also have "\<dots> = int (length trimmed) - (?L + 2) + 2 + 2 * (?L div 2)"
    by (simp add: rl l)
  also have "\<dots> = int (length trimmed) - ?L mod 2"
    by presburger
  finally show ?thesis .
qed

lemma signed_spans_of_signed:
  assumes loc: "locate this trimmed = Inr pl"
    and rew: "rewrite_byteRange this trimmed pl = Inr rewritten"
    and emb: "embed this (remove_placeholder rewritten pl) pl raw = (Inr signed, this')"
    and found: "0 \<le> placeholderPos pl"
  shows "signed_spans signed (byteRange pl) =
           take (nat (placeholderPos pl)) (remove_placeholder rewritten pl) @
           drop (nat (placeholderPos pl) + nat (placeholderLength pl mod 2))
             (remove_placeholder rewritten pl)"
proof -
  let ?p = "placeholderPos pl"
  let ?L = "placeholderLength pl"
  let ?pdf = "remove_placeholder rewritten pl"
  let ?n = "int (length trimmed)"
  from signed_layout [OF assms] obtain payload where
    s: "signed = take (nat ?p) ?pdf @ ''<'' @ payload @ ''>'' @ drop (nat ?p) ?pdf"
    and l: "int (length payload) = 2 * (?L div 2)"
    and L: "0 \<le> ?L"
    and rl: "int (length ?pdf) = ?n - (?L + 2)"
    and i: "?p + ?L + 2 \<le> ?n"
    by blast
  have p_in: "?p \<le> int (length ?pdf)" using rl i by linarith
  have sl: "int (length signed) = ?n - ?L mod 2" by (rule signed_length [OF assms])
  have br: "byteRange pl = (0, ?p, ?p + (?L + 2), ?n - (?p + (?L + 2)))"
    by (simp add: locate_Inr(9) [OF loc] locate_Inr(8) [OF loc])
  have m: "0 \<le> ?L mod 2" "?L mod 2 \<le> 1" by presburger+
  have first: "buffer_slice signed 0 ?p = take (nat ?p) ?pdf"
  proof -
    have "?p \<le> int (length signed)" using sl i m L by linarith
    from buffer_slice_take [OF found this] show ?thesis
      unfolding s using found p_in by simp
  qed
  have second: "buffer_slice signed (?p + (?L + 2)) ?n =
      drop (nat ?p + nat (?L mod 2)) ?pdf"
  proof (cases "?p + (?L + 2) \<le> int (length signed)")
    case True
    have "buffer_slice signed (?p + (?L + 2)) ?n = drop (nat (?p + (?L + 2))) signed"
      using True found L sl m by (intro buffer_slice_past_end) linarith+
    also have "nat (?p + (?L + 2)) = nat ?p + (2 + length payload + nat (?L mod 2))"
    proof -
      have "?L = 2 * (?L div 2) + ?L mod 2" by simp
      then have "?L = int (length payload) + ?L mod 2" unfolding l .
      then show ?thesis using found L m by linarith
    qed
    also have "drop (nat ?p + (2 + length payload + nat (?L mod 2))) signed =
        drop (nat ?p + nat (?L mod 2)) ?pdf"
      unfolding s using found p_in by (simp add: min_def add.commute)
    finally show ?thesis .
  next
    case False
    with sl i have odd: "?L mod 2 = 1" and e: "?p + (?L + 2) = ?n" using m by linarith+
    have "buffer_slice signed (?p + (?L + 2)) ?n = []"
      using False sl m by (intro buffer_slice_beyond) linarith+
    moreover have "int (length ?pdf) = ?p" using rl e by linarith
    then have "drop (nat ?p + nat (?L mod 2)) ?pdf = []" by simp
    ultimately show ?thesis by simp
  qed
  show ?thesis
    by (simp add: signed_spans_def br first second)
qed

lemma signed_spans_even_placeholder:
  assumes loc: "locate this trimmed = Inr pl"
    and rew: "rewrite_byteRange this trimmed pl = Inr rewritten"
    and emb: "embed this (remove_placeholder rewritten pl) pl raw = (Inr signed, this')"
    and found: "0 \<le> placeholderPos pl"
    and even: "even (placeholderLength pl)"
  shows "signed_spans signed (byteRange pl) = remove_placeholder rewritten pl"
proof -
  from even have "placeholderLength pl mod 2 = 0" by presburger
  with signed_spans_of_signed [OF loc rew emb found] show ?thesis by simp
qed

lemma make_signer_helper_update:
  "make_signer (tk\<lparr>removeTrailingNewLine := f\<rparr>) privateKey cert =
     make_signer tk privateKey cert"
  by (simp add: make_signer_def)

lemma signing_message_helper_update:
  "signing_message (tk\<lparr>removeTrailingNewLine := f\<rparr>) pdf p12 = signing_message tk pdf p12"
  by (simp add: signing_message_def make_signer_helper_update
      split: list.splits prod.splits option.splits)

lemma build_signature_helper_update:
  "build_signature (tk\<lparr>removeTrailingNewLine := f\<rparr>) pdf p12Bytes options =
     build_signature tk pdf p12Bytes options"
  by (simp add: build_signature_def signing_message_helper_update)

section \<open>Facts about \<open>verify\<close>\<close>

lemma catch_result_other:
  "\<forall>msg ty. err \<noteq> SignPdfError msg ty \<Longrightarrow>
   catch_result err = \<lparr>verified = False, message = Some ''couldn't verify file signature''\<rparr>"
  by (cases err) (simp_all add: catch_result_def)

lemma verify_try_True:
  "verify_try tk pdfBytes = Inr res \<Longrightarrow> res = \<lparr>verified = True, message = None\<rparr>"
  by (auto simp: verify_try_def ebind_eq_Inr split: if_splits)

lemma verify_Buffer_cases:
  "verify tk (Buffer pdfBytes) =
     (case verify_try tk pdfBytes of
        Inr res \<Rightarrow> Inr \<lparr>verified = True, message = None\<rparr>
      | Inl err \<Rightarrow> Inr (catch_result err))"
proof (cases "verify_try tk pdfBytes")
  case (Inl err)
  then show ?thesis by (simp add: verify_def)
next
  case (Inr res)
  with verify_try_True [OF Inr] show ?thesis by (simp add: verify_def)
qed

lemma verify_try_Inr_iff:
  "(\<exists>res. verify_try tk pdfBytes = Inr res) \<longleftrightarrow>
   (\<exists>signedData msg alg.
      check_attributes tk pdfBytes = Inr (signedData, msg, alg, True) \<and>
      check_digest tk signedData msg alg = Inr True)"
proof
  assume "\<exists>res. verify_try tk pdfBytes = Inr res"
  then obtain res where r: "verify_try tk pdfBytes = Inr res" ..
  then obtain signedData msg alg valid where
    a: "check_attributes tk pdfBytes = Inr (signedData, msg, alg, valid)"
    by (cases "check_attributes tk pdfBytes") (auto simp: verify_try_def)
  from r a have v: "valid" by (auto simp: verify_try_def split: if_splits)
  from r a v obtain ok where d: "check_digest tk signedData msg alg = Inr ok"
    by (cases "check_digest tk signedData msg alg") (auto simp: verify_try_def)
  from r a v d have "ok" by (auto simp: verify_try_def split: if_splits)
  with a v d show "\<exists>signedData msg alg.
      check_attributes tk pdfBytes = Inr (signedData, msg, alg, True) \<and>
      check_digest tk signedData msg alg = Inr True"
    by auto
next
  assume "\<exists>signedData msg alg.
      check_attributes tk pdfBytes = Inr (signedData, msg, alg, True) \<and>
      check_digest tk signedData msg alg = Inr True"
  then show "\<exists>res. verify_try tk pdfBytes = Inr res"
    by (auto simp: verify_try_def)
qed

lemma verified_needs_digest:
  assumes att: "check_attributes tk pdfBytes = Inr (signedData, msg, alg, valid)"
    and no: "check_digest tk signedData msg alg \<noteq> Inr True"
  shows "\<exists>res. verify tk (Buffer pdfBytes) = Inr res \<and> \<not> verified res"
proof (cases "verify_try tk pdfBytes")
  case (Inl err)
  then show ?thesis by (simp add: verify_def catch_result_def)
next
  case (Inr res)
  with att no have False
    by (auto simp: verify_try_def ebind_eq_Inr split: if_splits)
  then show ?thesis ..
qed

text \<open>
  The invariant of the design, for a placeholder of even width: the two spans that the
  written \<open>/ByteRange\<close> denotes in the signed document are the bytes that were signed, so
  a toolkit that accepts the signature over these bytes makes \<open>verify\<close> accept the document.
\<close>

lemma round_trip_even_placeholder:
  assumes ok: "sign tk this (Buffer pdfBytes) (Buffer p12Bytes) opts = (Inr signed, this')"
    and prep: "prepare tk this pdfBytes p12Bytes (merge_options opts) = Inr (pl, content, raw)"
    and even: "even (placeholderLength pl)"
    and found: "0 \<le> placeholderPos pl"
    and att: "check_attributes tk signed =
                Inr (signed_spans signed (byteRange pl), msg, alg, True)"
    and dig: "check_digest tk content msg alg = Inr True"
  shows "signed_spans signed (byteRange pl) = content \<and>
         verify tk (Buffer signed) = Inr \<lparr>verified = True, message = None\<rparr>"
proof -
  from prepare_Inr [OF prep] obtain rewritten where
    loc: "locate this (removeTrailingNewLine tk pdfBytes) = Inr pl"
    and rew: "rewrite_byteRange this (removeTrailingNewLine tk pdfBytes) pl = Inr rewritten"
    and content: "content = remove_placeholder rewritten pl"
    by blast
  from ok prep have emb: "embed this (remove_placeholder rewritten pl) pl raw = (Inr signed, this')"
    by (simp add: sign_def content)
  have spans: "signed_spans signed (byteRange pl) = content"
    unfolding content by (rule signed_spans_even_placeholder [OF loc rew emb found even])
  have "verify tk (Buffer signed) = Inr \<lparr>verified = True, message = None\<rparr>"
    by (simp add: verify_def verify_try_def att spans dig)
  with spans show ?thesis by blast
qed

section \<open>The claims about \<open>verify\<close>\<close>

text \<open>
  C1 (amended). For every \<open>Buffer\<close> argument \<open>verify\<close> never raises: it returns
  \<open>{verified: true}\<close> or \<open>{verified: false, message}\<close>, whatever the collaborators do or
  throw. Every failure surfaces as \<open>{verified: false, message}\<close>: each exception that
  reaches the \<open>catch\<close> (the two structured failures and every unexpected one) gives such a
  result, and \<open>{verified: true}\<close> is returned exactly when the signature check over the
  attributes and the digest comparison both succeed. For an argument that is not a
  \<open>Buffer\<close> \<open>verify\<close> throws a \<open>SignPdfError\<close> of type \<open>TYPE_INPUT\<close>: the check of the
  argument (lines 190 to 195) stands before the \<open>try\<close>. The source names the field
  \<open>message\<close>; the spec calls it \<open>reason\<close>.
\<close>

theorem verify_raises_only_for_non_buffer:
  "(\<exists>res. verify tk (Buffer pdfBytes) = Inr res \<and>
          (res = \<lparr>verified = True, message = None\<rparr> \<or>
           (\<exists>reason. res = \<lparr>verified = False, message = Some reason\<rparr>))) \<and>
   (\<forall>err. verify_try tk pdfBytes = Inl err \<longrightarrow>
      (\<exists>reason. verify tk (Buffer pdfBytes) =
                  Inr \<lparr>verified = False, message = Some reason\<rparr>)) \<and>
   ((verify tk (Buffer pdfBytes) = Inr \<lparr>verified = True, message = None\<rparr>) =
      (\<exists>signedData msg alg.
         check_attributes tk pdfBytes = Inr (signedData, msg, alg, True) \<and>
         check_digest tk signedData msg alg = Inr True)) \<and>
   verify tk (JsString s) = Inl (SignPdfError ''PDF expected as Buffer.'' TYPE_INPUT) \<and>
   verify tk JsUndefined = Inl (SignPdfError ''PDF expected as Buffer.'' TYPE_INPUT)"
proof (intro conjI allI impI)
  show "\<exists>res. verify tk (Buffer pdfBytes) = Inr res \<and>
          (res = \<lparr>verified = True, message = None\<rparr> \<or>
           (\<exists>reason. res = \<lparr>verified = False, message = Some reason\<rparr>))"
    by (cases "verify_try tk pdfBytes") (simp_all add: verify_Buffer_cases catch_result_def)
next
  fix err
  assume "verify_try tk pdfBytes = Inl err"
  then show "\<exists>reason. verify tk (Buffer pdfBytes) =
      Inr \<lparr>verified = False, message = Some reason\<rparr>"
    by (simp add: verify_Buffer_cases catch_result_def)
next
  have "(verify tk (Buffer pdfBytes) = Inr \<lparr>verified = True, message = None\<rparr>) =
      (\<exists>res. verify_try tk pdfBytes = Inr res)"
    by (cases "verify_try tk pdfBytes") (simp_all add: verify_Buffer_cases catch_result_def)
  then show "(verify tk (Buffer pdfBytes) = Inr \<lparr>verified = True, message = None\<rparr>) =
      (\<exists>signedData msg alg.
         check_attributes tk pdfBytes = Inr (signedData, msg, alg, True) \<and>
         check_digest tk signedData msg alg = Inr True)"
    by (simp only: verify_try_Inr_iff)
next
  show "verify tk (JsString s) = Inl (SignPdfError ''PDF expected as Buffer.'' TYPE_INPUT)"
    by (simp add: verify_def)
next
  show "verify tk JsUndefined = Inl (SignPdfError ''PDF expected as Buffer.'' TYPE_INPUT)"
    by (simp add: verify_def)
qed

theorem verify_raises_only_for_non_buffer_witness:
  "verify_try bad_der_toolkit ''x'' = Inl (LibraryError ''Too few bytes to parse DER.'') \<and>
   (\<exists>reason. verify bad_der_toolkit (Buffer ''x'') =
               Inr \<lparr>verified = False, message = Some reason\<rparr>) \<and>
   verify bad_der_toolkit (Buffer ''x'') \<noteq> Inr \<lparr>verified = True, message = None\<rparr> \<and>
   verify bad_der_toolkit (JsString ''x'') =
     Inl (SignPdfError ''PDF expected as Buffer.'' TYPE_INPUT) \<and>
   verify bad_der_toolkit JsUndefined =
     Inl (SignPdfError ''PDF expected as Buffer.'' TYPE_INPUT)"
proof -
  have h: "verify_try bad_der_toolkit ''x'' = Inl (LibraryError ''Too few bytes to parse DER.'')"
    by (simp add: verify_try_def check_attributes_def bad_der_toolkit_def plain_toolkit_def
        example_toolkit_def)
  note t = verify_raises_only_for_non_buffer [of bad_der_toolkit "''x''" "''x''"]
  from t h have c: "\<exists>reason. verify bad_der_toolkit (Buffer ''x'') =
      Inr \<lparr>verified = False, message = Some reason\<rparr>"
    by blast
  then have "verify bad_der_toolkit (Buffer ''x'') \<noteq> Inr \<lparr>verified = True, message = None\<rparr>"
    by auto
  with t h c show ?thesis by blast
qed

text \<open>The claim as stated fails: \<open>verify(undefined)\<close> throws.\<close>

theorem verify_raises_counterexample:
  "verify (example_toolkit example_p12 ''0'' ''good'' ''x'') JsUndefined =
     Inl (SignPdfError ''PDF expected as Buffer.'' TYPE_INPUT)"
  by (simp add: verify_def)

text \<open>
  C9 (amended). The two checks of \<open>verify\<close> report apart: a failed signature check over the
  authenticated attributes gives the message \<open>Wrong authenticated attributes\<close>, a digest that
  differs gives \<open>Wrong content digest\<close>. What reaches the \<open>catch\<close> is told apart by its class
  alone: every \<open>SignPdfError\<close> is reported with its own message, also one that a helper of the
  repository throws, and any other exception gives \<open>couldn't verify file signature\<close>.
\<close>

theorem verify_reasons:
  "(check_attributes tk pdfBytes = Inr (signedData, msg, alg, False) \<longrightarrow>
      verify tk (Buffer pdfBytes) =
        Inr \<lparr>verified = False, message = Some ''Wrong authenticated attributes''\<rparr>) \<and>
   (check_attributes tk pdfBytes = Inr (signedData, msg, alg, True) \<and>
    check_digest tk signedData msg alg = Inr False \<longrightarrow>
      verify tk (Buffer pdfBytes) =
        Inr \<lparr>verified = False, message = Some ''Wrong content digest''\<rparr>) \<and>
   (verify_try tk pdfBytes = Inl (SignPdfError text ty) \<longrightarrow>
      verify tk (Buffer pdfBytes) = Inr \<lparr>verified = False, message = Some text\<rparr>) \<and>
   (verify_try tk pdfBytes = Inl err \<and> (\<forall>text ty. err \<noteq> SignPdfError text ty) \<longrightarrow>
      verify tk (Buffer pdfBytes) =
        Inr \<lparr>verified = False, message = Some ''couldn't verify file signature''\<rparr>)"
proof (intro conjI impI)
  assume "check_attributes tk pdfBytes = Inr (signedData, msg, alg, False)"
  then show "verify tk (Buffer pdfBytes) =
      Inr \<lparr>verified = False, message = Some ''Wrong authenticated attributes''\<rparr>"
    by (simp add: verify_def verify_try_def catch_result_def)
next
  assume "check_attributes tk pdfBytes = Inr (signedData, msg, alg, True) \<and>
    check_digest tk signedData msg alg = Inr False"
  then show "verify tk (Buffer pdfBytes) =
      Inr \<lparr>verified = False, message = Some ''Wrong content digest''\<rparr>"
    by (simp add: verify_def verify_try_def catch_result_def)
next
  assume "verify_try tk pdfBytes = Inl (SignPdfError text ty)"
  then show "verify tk (Buffer pdfBytes) = Inr \<lparr>verified = False, message = Some text\<rparr>"
    by (simp add: verify_def catch_result_def)
next
  assume "verify_try tk pdfBytes = Inl err \<and> (\<forall>text ty. err \<noteq> SignPdfError text ty)"
  then show "verify tk (Buffer pdfBytes) =
      Inr \<lparr>verified = False, message = Some ''couldn't verify file signature''\<rparr>"
    by (simp add: verify_def catch_result_other)
qed

theorem verify_reasons_witness:
  "verify bad_signature_toolkit (Buffer ''x'') =
     Inr \<lparr>verified = False, message = Some ''Wrong authenticated attributes''\<rparr> \<and>
   verify plain_toolkit (Buffer ''y'') =
     Inr \<lparr>verified = False, message = Some ''Wrong content digest''\<rparr> \<and>
   verify no_signature_toolkit (Buffer ''x'') =
     Inr \<lparr>verified = False, message = Some ''Failed to locate ByteRange.''\<rparr> \<and>
   verify bad_der_toolkit (Buffer ''x'') =
     Inr \<lparr>verified = False, message = Some ''couldn't verify file signature''\<rparr>"
proof -
  have h1: "check_attributes bad_signature_toolkit ''x'' =
      Inr (''x'', example_message ''bad'' ''x'', ''SHA256'', False)"
    by code_simp
  have h2: "check_attributes plain_toolkit ''y'' =
      Inr (''y'', example_message ''good'' ''x'', ''SHA256'', True) \<and>
    check_digest plain_toolkit ''y'' (example_message ''good'' ''x'') ''SHA256'' = Inr False"
    by code_simp
  have h3: "verify_try no_signature_toolkit ''x'' =
      Inl (SignPdfError ''Failed to locate ByteRange.'' TYPE_PARSE)"
    by code_simp
  have h4: "verify_try bad_der_toolkit ''x'' = Inl (LibraryError ''Too few bytes to parse DER.'') \<and>
      (\<forall>text ty. LibraryError ''Too few bytes to parse DER.'' \<noteq> SignPdfError text ty)"
    by (simp add: verify_try_def check_attributes_def bad_der_toolkit_def plain_toolkit_def
        example_toolkit_def)
  from verify_reasons [of bad_signature_toolkit "''x''" "''x''" "example_message ''bad'' ''x''"
      "''SHA256''"] h1
  have c1: "verify bad_signature_toolkit (Buffer ''x'') =
      Inr \<lparr>verified = False, message = Some ''Wrong authenticated attributes''\<rparr>"
    by blast
  from verify_reasons [of plain_toolkit "''y''" "''y''" "example_message ''good'' ''x''"
      "''SHA256''"] h2
  have c2: "verify plain_toolkit (Buffer ''y'') =
      Inr \<lparr>verified = False, message = Some ''Wrong content digest''\<rparr>"
    by blast
  from verify_reasons [of no_signature_toolkit "''x''" _ _ _ "''Failed to locate ByteRange.''"
      TYPE_PARSE] h3
  have c3: "verify no_signature_toolkit (Buffer ''x'') =
      Inr \<lparr>verified = False, message = Some ''Failed to locate ByteRange.''\<rparr>"
    by blast
  from verify_reasons [of bad_der_toolkit "''x''" _ _ _ _ _
      "LibraryError ''Too few bytes to parse DER.''"] h4
  have c4: "verify bad_der_toolkit (Buffer ''x'') =
      Inr \<lparr>verified = False, message = Some ''couldn't verify file signature''\<rparr>"
    by blast
  from c1 c2 c3 c4 show ?thesis by blast
qed

text \<open>
  The claim as stated fails: a \<open>SignPdfError\<close> thrown while the signature is extracted is
  neither of the two structured failures, and it is reported with its own message.
\<close>

theorem verify_reasons_counterexample:
  "verify_try no_signature_toolkit ''x'' =
     Inl (SignPdfError ''Failed to locate ByteRange.'' TYPE_PARSE) \<and>
   verify no_signature_toolkit (Buffer ''x'') =
     Inr \<lparr>verified = False, message = Some ''Failed to locate ByteRange.''\<rparr> \<and>
   ''Failed to locate ByteRange.'' \<noteq> ''couldn't verify file signature''"
  by code_simp

section \<open>The claims about \<open>sign\<close>\<close>

text \<open>
  C2 (the code departs from the claim). A placeholder of odd width with bytes after it:
  \<open>sign\<close> writes a \<open>/ByteRange\<close> for the width of the placeholder but inserts a field that
  is one byte narrower (see C8), so the two spans that the written \<open>/ByteRange\<close> denotes in
  the signed document are one byte short of the bytes that were signed. With an extraction
  that returns these spans, as the spec asks of it, and a digest check that accepts only the
  bytes that were signed, \<open>verify\<close> does not return \<open>verified: true\<close> for what \<open>sign\<close>
  returned.
\<close>

theorem odd_placeholder_round_trip_fails:
  assumes ok: "sign tk this (Buffer pdfBytes) (Buffer p12Bytes) opts = (Inr signed, this')"
    and prep: "prepare tk this pdfBytes p12Bytes (merge_options opts) = Inr (pl, content, raw)"
    and odd: "odd (placeholderLength pl)"
    and found: "0 \<le> placeholderPos pl"
    and tail: "placeholderEnd pl + 1 < int (length (removeTrailingNewLine tk pdfBytes))"
    and att: "check_attributes tk signed =
                Inr (signed_spans signed (byteRange pl), msg, alg, valid)"
    and dig: "\<forall>data. check_digest tk data msg alg = Inr True \<longrightarrow> data = content"
  shows "length (signed_spans signed (byteRange pl)) < length content \<and>
         (\<exists>res. verify tk (Buffer signed) = Inr res \<and> \<not> verified res)"
proof -
  let ?p = "placeholderPos pl"
  let ?L = "placeholderLength pl"
  let ?n = "int (length (removeTrailingNewLine tk pdfBytes))"
  from prepare_Inr [OF prep] obtain rewritten where
    loc: "locate this (removeTrailingNewLine tk pdfBytes) = Inr pl"
    and rew: "rewrite_byteRange this (removeTrailingNewLine tk pdfBytes) pl = Inr rewritten"
    and content: "content = remove_placeholder rewritten pl"
    by blast
  from ok prep have emb: "embed this (remove_placeholder rewritten pl) pl raw = (Inr signed, this')"
    by (simp add: sign_def content)
  from signed_layout [OF loc rew emb found]
  have rl: "int (length content) = ?n - (?L + 2)" and L: "0 \<le> ?L"
    unfolding content by blast+
  have "?p + (?L + 2) = placeholderEnd pl + 1"
    by (simp add: locate_Inr(7) [OF loc] locate_Inr(8) [OF loc])
  with tail rl have p_lt: "?p < int (length content)" by linarith
  from odd have m: "?L mod 2 = 1" by presburger
  have spans: "signed_spans signed (byteRange pl) =
      take (nat ?p) content @ drop (nat ?p + 1) content"
    using signed_spans_of_signed [OF loc rew emb found] by (simp add: m content)
  have shorter: "length (signed_spans signed (byteRange pl)) < length content"
    unfolding spans using p_lt found by simp
  then have "signed_spans signed (byteRange pl) \<noteq> content" by auto
  with dig have "check_digest tk (signed_spans signed (byteRange pl)) msg alg \<noteq> Inr True"
    by blast
  from verified_needs_digest [OF att this] shorter show ?thesis by blast
qed

theorem odd_placeholder_round_trip_fails_witness:
  "sign (round_trip_toolkit example_signed_bytes_odd) new_SignPdf (Buffer example_pdf_odd)
     (Buffer ''p12'') no_options =
     (Inr example_signed_odd, new_SignPdf\<lparr>lastSignature := Some ''30''\<rparr>) \<and>
   odd (placeholderLength example_placement_odd) \<and>
   length (signed_spans example_signed_odd (byteRange example_placement_odd)) <
     length example_signed_bytes_odd \<and>
   verify (round_trip_toolkit example_signed_bytes_odd) (Buffer example_signed_odd) =
     Inr \<lparr>verified = False, message = Some ''Wrong content digest''\<rparr> \<and>
   sign (round_trip_toolkit example_signed_bytes) new_SignPdf (Buffer example_pdf)
     (Buffer ''p12'') no_options =
     (Inr example_signed, new_SignPdf\<lparr>lastSignature := Some ''30''\<rparr>) \<and>
   verify (round_trip_toolkit example_signed_bytes) (Buffer example_signed) =
     Inr \<lparr>verified = True, message = None\<rparr>"
proof -
  let ?tk = "round_trip_toolkit example_signed_bytes_odd"
  let ?msg = "example_message ''good'' example_signed_bytes_odd"
  have ok: "sign ?tk new_SignPdf (Buffer example_pdf_odd) (Buffer ''p12'') no_options =
      (Inr example_signed_odd, new_SignPdf\<lparr>lastSignature := Some ''30''\<rparr>)"
    by code_simp
  have prep: "prepare ?tk new_SignPdf example_pdf_odd ''p12'' (merge_options no_options) =
      Inr (example_placement_odd, example_signed_bytes_odd, ''0'')"
    by code_simp
  have odd: "odd (placeholderLength example_placement_odd)"
    by code_simp
  have found: "0 \<le> placeholderPos example_placement_odd"
    by code_simp
  have tail: "placeholderEnd example_placement_odd + 1 <
      int (length (removeTrailingNewLine ?tk example_pdf_odd))"
    by code_simp
  have att: "check_attributes ?tk example_signed_odd =
      Inr (signed_spans example_signed_odd (byteRange example_placement_odd), ?msg,
           ''SHA256'', True)"
    by code_simp
  have dig: "\<forall>data. check_digest ?tk data ?msg ''SHA256'' = Inr True \<longrightarrow>
      data = example_signed_bytes_odd"
    by (simp add: check_digest_def round_trip_toolkit_def example_toolkit_def
        example_message_def example_attrs_def attr_oid_def attr_digest_def get_value_def
        get_index_def oid_messageDigest_def oid_contentType_def)
  have v: "verify ?tk (Buffer example_signed_odd) =
      Inr \<lparr>verified = False, message = Some ''Wrong content digest''\<rparr>"
    by code_simp
  have ok2: "sign (round_trip_toolkit example_signed_bytes) new_SignPdf (Buffer example_pdf)
      (Buffer ''p12'') no_options =
      (Inr example_signed, new_SignPdf\<lparr>lastSignature := Some ''30''\<rparr>)"
    by code_simp
  have v2: "verify (round_trip_toolkit example_signed_bytes) (Buffer example_signed) =
      Inr \<lparr>verified = True, message = None\<rparr>"
    by code_simp
  from odd_placeholder_round_trip_fails [OF ok prep odd found tail att dig]
  have "length (signed_spans example_signed_odd (byteRange example_placement_odd)) <
      length example_signed_bytes_odd"
    by blast
  with ok odd v ok2 v2 show ?thesis by blast
qed

text \<open>
  C3 (the code departs from the claim). A document with the \<open>/ByteRange\<close> placeholder and no
  \<open>/Contents\<close> tag after it, whose last byte is neither \<open><\<close> nor \<open>>\<close>: the three searches
  of lines 60 to 62 all give \<open>-1\<close>, \<open>sign\<close> goes on with \<open>placeholderLength = -1\<close>, and once
  the signature is built it throws the \<open>InputError\<close> of the capacity check, not a
  \<open>ParseError\<close>. (When such a document ends with \<open>>\<close>, \<open>sign\<close> can even return a buffer, with
  the signature put before the last byte: the second document of the evaluation below.)
\<close>

theorem missing_contents_tag_is_not_a_parse_error:
  assumes prep: "prepare tk this pdfBytes p12Bytes (merge_options opts) = Inr (pl, pdf, raw)"
    and missing: "contentsTagPos pl = - 1"
    and ending: "last (removeTrailingNewLine tk pdfBytes) \<noteq> CHR ''<''"
      "last (removeTrailingNewLine tk pdfBytes) \<noteq> CHR ''>''"
  shows "placeholderLength pl = - 1 \<and>
         sign tk this (Buffer pdfBytes) (Buffer p12Bytes) opts =
           (Inl (SignPdfError
                  (''Signature exceeds placeholder length: '' @
                   number_toString (int (length raw) * 2) @ '' > -1'') TYPE_INPUT),
            this)"
proof -
  let ?doc = "removeTrailingNewLine tk pdfBytes"
  from prepare_Inr [OF prep] have loc: "locate this ?doc = Inr pl" by blast
  from locate_byteRangePos_range [OF loc] locate_Inr(3) [OF loc]
    byteRangeString_nonempty [of this]
  have ne: "?doc \<noteq> []" by (cases "byteRangeString this") auto
  have p: "placeholderPos pl = - 1"
    using ending(1) by (simp add: locate_Inr(5) [OF loc] missing buffer_indexOf_from_last [OF ne])
  have e: "placeholderEnd pl = - 1"
    using ending(2) by (simp add: locate_Inr(6) [OF loc] p buffer_indexOf_from_last [OF ne])
  have L: "placeholderLength pl = - 1"
    by (simp add: locate_Inr(8) [OF loc] locate_Inr(7) [OF loc] p e)
  have n: "number_toString (- 1) = ''-1''" by code_simp
  have "sign tk this (Buffer pdfBytes) (Buffer p12Bytes) opts =
      (Inl (SignPdfError
             (''Signature exceeds placeholder length: '' @
              number_toString (int (length raw) * 2) @ '' > -1'') TYPE_INPUT),
       this)"
    by (simp add: sign_def prep embed_def L n)
  with L show ?thesis by blast
qed

theorem missing_contents_tag_witness:
  "prepare plain_toolkit new_SignPdf example_pdf_no_contents ''p12'' (merge_options no_options) =
     Inr (example_placement_no_contents, example_signed_bytes_no_contents, ''0'') \<and>
   contentsTagPos example_placement_no_contents = - 1 \<and>
   placeholderLength example_placement_no_contents = - 1 \<and>
   sign plain_toolkit new_SignPdf (Buffer example_pdf_no_contents) (Buffer ''p12'')
     no_options =
     (Inl (SignPdfError ''Signature exceeds placeholder length: 2 > -1'' TYPE_INPUT),
      new_SignPdf) \<and>
   sign plain_toolkit new_SignPdf (Buffer example_pdf_no_contents_gt) (Buffer ''p12'')
     no_options =
     (Inr ''%PDF /ByteRange [0 -1 57 0]                            <30000000000000000000000000000000000000000000000000000000> '',
      new_SignPdf\<lparr>lastSignature := Some ''30''\<rparr>)"
proof -
  have prep: "prepare plain_toolkit new_SignPdf example_pdf_no_contents ''p12''
      (merge_options no_options) =
      Inr (example_placement_no_contents, example_signed_bytes_no_contents, ''0'')"
    by code_simp
  have missing: "contentsTagPos example_placement_no_contents = - 1"
    by code_simp
  have ending: "last (removeTrailingNewLine plain_toolkit example_pdf_no_contents) \<noteq> CHR ''<''"
    "last (removeTrailingNewLine plain_toolkit example_pdf_no_contents) \<noteq> CHR ''>''"
    by code_simp+
  have n: "number_toString (int (length ''0'') * 2) = ''2''"
    by code_simp
  from missing_contents_tag_is_not_a_parse_error [OF prep missing ending]
  have c: "placeholderLength example_placement_no_contents = - 1 \<and>
    sign plain_toolkit new_SignPdf (Buffer example_pdf_no_contents) (Buffer ''p12'')
      no_options =
     (Inl (SignPdfError ''Signature exceeds placeholder length: 2 > -1'' TYPE_INPUT),
      new_SignPdf)"
    unfolding n by simp
  have g: "sign plain_toolkit new_SignPdf (Buffer example_pdf_no_contents_gt) (Buffer ''p12'')
      no_options =
     (Inr ''%PDF /ByteRange [0 -1 57 0]                            <30000000000000000000000000000000000000000000000000000000> '',
      new_SignPdf\<lparr>lastSignature := Some ''30''\<rparr>)"
    by code_simp
  from prep missing c g show ?thesis by blast
qed

text \<open>
  C4 (amended). With the container parsed and a key in its first key bag: when no
  certificate of the container has the modulus and exponent of the key, \<open>sign\<close> throws the
  \<open>InputError\<close>; otherwise the message handed to \<open>p7.sign\<close> holds every certificate of the
  container and one signer, whose certificate is the last match in bag order.
\<close>

theorem signing_certificate_is_last_match:
  assumes loc: "locate this (removeTrailingNewLine tk pdfBytes) = Inr pl"
    and rew: "rewrite_byteRange this (removeTrailingNewLine tk pdfBytes) pl = Inr rewritten"
    and der: "fromDer tk p12Bytes = Inr p12Asn1"
    and p12: "pkcs12FromAsn1 tk p12Asn1 (asn1StrictParsing (merge_options opts))
                (passphrase (merge_options opts)) = Inr p12"
    and key: "keyBags p12 = privateKey # others"
  shows "case filter (matches_private_key privateKey) (certBags p12) of
           [] \<Rightarrow>
             sign tk this (Buffer pdfBytes) (Buffer p12Bytes) opts =
               (Inl (SignPdfError
                  ''Failed to find a certificate that matches the private key.'' TYPE_INPUT),
                this)
         | c # cs \<Rightarrow>
             signing_message tk (remove_placeholder rewritten pl) p12 =
               Inr \<lparr>p7_content = remove_placeholder rewritten pl,
                    p7_certificates = certBags p12,
                    p7_signers = [make_signer tk privateKey (last (c # cs))]\<rparr>"
proof (cases "filter (matches_private_key privateKey) (certBags p12)")
  case Nil
  with signing_message_last_match [OF key, of tk "remove_placeholder rewritten pl"]
  have "signing_message tk (remove_placeholder rewritten pl) p12 =
      Inl (SignPdfError
        ''Failed to find a certificate that matches the private key.'' TYPE_INPUT)"
    by simp
  then have "prepare tk this pdfBytes p12Bytes (merge_options opts) =
      Inl (SignPdfError
        ''Failed to find a certificate that matches the private key.'' TYPE_INPUT)"
    by (simp add: prepare_def Let_def loc rew build_signature_def der p12)
  then show ?thesis by (simp add: sign_def Nil)
next
  case (Cons c cs)
  with signing_message_last_match [OF key, of tk "remove_placeholder rewritten pl"]
  show ?thesis by simp
qed

theorem signing_certificate_is_last_match_witness:
  "signing_message plain_toolkit example_signed_bytes example_p12 =
     Inr \<lparr>p7_content = example_signed_bytes,
          p7_certificates = [example_cert_A, example_cert_B],
          p7_signers = [make_signer plain_toolkit example_key example_cert_B]\<rparr> \<and>
   sign unmatched_toolkit new_SignPdf (Buffer example_pdf) (Buffer ''p12'') no_options =
     (Inl (SignPdfError
        ''Failed to find a certificate that matches the private key.'' TYPE_INPUT),
      new_SignPdf)"
proof -
  have loc: "locate new_SignPdf (removeTrailingNewLine plain_toolkit example_pdf) =
      Inr example_placement"
    by code_simp
  have rew: "rewrite_byteRange new_SignPdf (removeTrailingNewLine plain_toolkit example_pdf)
      example_placement = Inr example_rewritten"
    by code_simp
  have der: "fromDer plain_toolkit ''p12'' = Inr (Asn1 0 4 False (Bytes ''p12''))"
    by code_simp
  have p12: "pkcs12FromAsn1 plain_toolkit (Asn1 0 4 False (Bytes ''p12''))
      (asn1StrictParsing (merge_options no_options)) (passphrase (merge_options no_options)) =
      Inr example_p12"
    by code_simp
  have key: "keyBags example_p12 = example_key # []"
    by code_simp
  have m: "filter (matches_private_key example_key) (certBags example_p12) =
      [example_cert_A, example_cert_B]"
    by code_simp
  have r: "remove_placeholder example_rewritten example_placement = example_signed_bytes"
    by code_simp
  have cb: "certBags example_p12 = [example_cert_A, example_cert_B]"
    by code_simp
  from signing_certificate_is_last_match [OF loc rew der p12 key, unfolded m]
  have c1: "signing_message plain_toolkit example_signed_bytes example_p12 =
     Inr \<lparr>p7_content = example_signed_bytes,
          p7_certificates = [example_cert_A, example_cert_B],
          p7_signers = [make_signer plain_toolkit example_key example_cert_B]\<rparr>"
    by (simp add: r cb)
  have loc': "locate new_SignPdf (removeTrailingNewLine unmatched_toolkit example_pdf) =
      Inr example_placement"
    by code_simp
  have rew': "rewrite_byteRange new_SignPdf
      (removeTrailingNewLine unmatched_toolkit example_pdf) example_placement =
      Inr example_rewritten"
    by code_simp
  have der': "fromDer unmatched_toolkit ''p12'' = Inr (Asn1 0 4 False (Bytes ''p12''))"
    by code_simp
  have p12': "pkcs12FromAsn1 unmatched_toolkit (Asn1 0 4 False (Bytes ''p12''))
      (asn1StrictParsing (merge_options no_options)) (passphrase (merge_options no_options)) =
      Inr \<lparr>certBags = [example_cert_other], keyBags = [example_key]\<rparr>"
    by code_simp
  have key': "keyBags \<lparr>certBags = [example_cert_other], keyBags = [example_key]\<rparr> =
      example_key # []"
    by simp
  have m': "filter (matches_private_key example_key)
      (certBags \<lparr>certBags = [example_cert_other], keyBags = [example_key]\<rparr>) = []"
    by code_simp
  from signing_certificate_is_last_match [OF loc' rew' der' p12' key', unfolded m']
  have c2: "sign unmatched_toolkit new_SignPdf (Buffer example_pdf) (Buffer ''p12'')
      no_options =
     (Inl (SignPdfError
        ''Failed to find a certificate that matches the private key.'' TYPE_INPUT),
      new_SignPdf)"
    by simp
  from c1 c2 show ?thesis by blast
qed

text \<open>
  The claim as stated fails: of two certificates that match the key, the second becomes the
  signing certificate, not the first.
\<close>

theorem first_match_counterexample:
  "filter (matches_private_key example_key) (certBags example_p12) =
     [example_cert_A, example_cert_B] \<and>
   example_cert_A \<noteq> example_cert_B \<and>
   signing_message plain_toolkit example_signed_bytes example_p12 =
     Inr \<lparr>p7_content = example_signed_bytes,
          p7_certificates = [example_cert_A, example_cert_B],
          p7_signers = [make_signer plain_toolkit example_key example_cert_B]\<rparr> \<and>
   signer_certificate (make_signer plain_toolkit example_key example_cert_B) = example_cert_B"
  by code_simp

text \<open>
  C5. When lines 40 to 159 have produced the DER signature and twice its length exceeds
  \<open>placeholderLength\<close>, \<open>sign\<close> throws the \<open>InputError\<close> \<open>Signature exceeds placeholder
  length: ... > ...\<close>; no buffer is returned, and the signer object is as before the call
  (the signature is not cached).
\<close>

theorem sign_signature_exceeds_placeholder:
  assumes "prepare tk this pdfBytes p12Bytes (merge_options opts) = Inr (pl, pdf, raw)"
    and "placeholderLength pl < int (length raw) * 2"
  shows "sign tk this (Buffer pdfBytes) (Buffer p12Bytes) opts =
           (Inl (SignPdfError
                  (''Signature exceeds placeholder length: '' @
                   number_toString (int (length raw) * 2) @ '' > '' @
                   number_toString (placeholderLength pl)) TYPE_INPUT),
            this)"
  using assms by (simp add: sign_def embed_def)

theorem sign_signature_exceeds_placeholder_witness:
  "prepare long_signature_toolkit new_SignPdf example_pdf ''p12'' (merge_options no_options) =
     Inr (example_placement, example_signed_bytes, ''012'') \<and>
   placeholderLength example_placement < int (length ''012'') * 2 \<and>
   sign long_signature_toolkit new_SignPdf (Buffer example_pdf) (Buffer ''p12'') no_options =
     (Inl (SignPdfError ''Signature exceeds placeholder length: 6 > 4'' TYPE_INPUT),
      new_SignPdf)"
proof -
  have h1: "prepare long_signature_toolkit new_SignPdf example_pdf ''p12''
      (merge_options no_options) = Inr (example_placement, example_signed_bytes, ''012'')"
    by code_simp
  have h2: "placeholderLength example_placement < int (length ''012'') * 2"
    by code_simp
  have n: "number_toString (int (length ''012'') * 2) = ''6''"
      "number_toString (placeholderLength example_placement) = ''4''"
    by code_simp+
  from sign_signature_exceeds_placeholder [OF h1 h2]
  have "sign long_signature_toolkit new_SignPdf (Buffer example_pdf) (Buffer ''p12'')
      no_options =
     (Inl (SignPdfError ''Signature exceeds placeholder length: 6 > 4'' TYPE_INPUT),
      new_SignPdf)"
    unfolding n by simp
  with h1 h2 show ?thesis by blast
qed

text \<open>
  C6 (amended). For a document in which the \<open>/ByteRange\<close> placeholder and, after it, the
  \<open>/Contents\<close> tag with its bracketed placeholder are found: the array that \<open>sign\<close> computes
  is \<open>[0, len0, start1, len1]\<close>, and these are the numbers of the text written at the place
  of the \<open>/ByteRange\<close> placeholder. The rewritten buffer is the first span, the bracketed
  placeholder (from its \<open><\<close> to its \<open>>\<close>) and the second span, in this order and with
  nothing between or after them; lines 80 to 83 cut out exactly the bracketed placeholder
  and keep the two spans. So \<open>len0 + len1\<close> and the bracketed width add up to the length of
  the document as \<open>removeTrailingNewLine\<close> returned it (line 40); with a helper that drops
  one trailing line feed this is the length of the caller's buffer when that does not end
  with a line feed, and one less when it does.
\<close>

theorem byteRange_spans:
  assumes loc: "locate this (removeTrailingNewLine tk pdfBuffer) = Inr pl"
    and rew: "rewrite_byteRange this (removeTrailingNewLine tk pdfBuffer) pl = Inr rewritten"
    and found: "contentsTagPos pl \<noteq> - 1" "placeholderPos pl \<noteq> - 1"
      "placeholderEnd pl \<noteq> - 1"
  shows "\<exists>len0 start1 len1 before field after.
           byteRange pl = (0, len0, start1, len1) \<and>
           take (length (actualByteRange pl)) (drop (nat (byteRangePos pl)) rewritten) =
             ''/ByteRange [0 '' @ number_toString len0 @ '' '' @ number_toString start1 @
             '' '' @ number_toString len1 @ '']'' \<and>
           rewritten = before @ field @ after \<and>
           remove_placeholder rewritten pl = before @ after \<and>
           field = take (nat (placeholderLengthWithBrackets pl))
                     (drop (nat (placeholderPos pl)) (removeTrailingNewLine tk pdfBuffer)) \<and>
           2 \<le> length field \<and> hd field = CHR ''<'' \<and> last field = CHR ''>'' \<and>
           int (length before) = len0 \<and>
           int (length field) = placeholderLengthWithBrackets pl \<and>
           int (length after) = len1 \<and>
           len0 = placeholderPos pl \<and>
           start1 = len0 + placeholderLengthWithBrackets pl \<and>
           start1 + len1 = int (length (removeTrailingNewLine tk pdfBuffer)) \<and>
           len0 + len1 + placeholderLengthWithBrackets pl =
             int (length (removeTrailingNewLine tk pdfBuffer)) \<and>
           (removeTrailingNewLine tk pdfBuffer = strip_trailing_newline pdfBuffer \<longrightarrow>
              len0 + len1 + placeholderLengthWithBrackets pl =
                int (length pdfBuffer) -
                (if pdfBuffer \<noteq> [] \<and> last pdfBuffer = CHR 0x0A then 1 else 0))"
proof -
  let ?doc = "removeTrailingNewLine tk pdfBuffer"
  let ?n = "int (length ?doc)"
  let ?p = "placeholderPos pl"
  let ?q = "placeholderEnd pl"
  let ?w = "placeholderLengthWithBrackets pl"
  let ?bp = "nat (byteRangePos pl)"
  let ?bw = "length (byteRangeString this)"
  let ?a = "actualByteRange pl"
  \<comment> \<open>the positions of the brackets\<close>
  have lt: "buffer_indexOf ?doc ''<'' (contentsTagPos pl) \<noteq> - 1"
    using found(2) by (simp add: locate_Inr(5) [OF loc])
  have gt: "buffer_indexOf ?doc ''>'' ?p \<noteq> - 1"
    using found(3) by (simp add: locate_Inr(6) [OF loc])
  have ct: "buffer_indexOf ?doc ''/Contents '' (byteRangeEnd pl) \<noteq> - 1"
    using found(1) by (simp add: locate_Inr(4) [OF loc])
  have p_char: "?doc ! nat ?p = CHR ''<''" and p0: "0 \<le> ?p" and p_lt: "?p < ?n"
    using buffer_indexOf_char [OF lt] by (simp_all add: locate_Inr(5) [OF loc])
  have q_char: "?doc ! nat ?q = CHR ''>''" and q0: "0 \<le> ?q" and q_lt: "?q < ?n"
    using buffer_indexOf_char [OF gt] by (simp_all add: locate_Inr(6) [OF loc])
  have "?p \<le> ?q"
    using buffer_indexOf_found(2) [OF _ gt p0] by (simp add: locate_Inr(6) [OF loc])
  moreover have "?p \<noteq> ?q" using p_char q_char by auto
  ultimately have pq: "?p < ?q" by linarith
  have w: "?w = ?q + 1 - ?p" by (rule locate_Inr(7) [OF loc])
  have w2: "2 \<le> ?w" using pq w by linarith
  have inside: "?p + ?w \<le> ?n" using q_lt w by linarith
  \<comment> \<open>the placeholder stands after the rewritten text\<close>
  note rng = locate_byteRangePos_range [OF loc]
  have e0: "0 \<le> byteRangeEnd pl" using rng(1) by (simp add: locate_Inr(3) [OF loc])
  have "byteRangeEnd pl \<le> contentsTagPos pl"
    using buffer_indexOf_found(2) [OF _ ct e0] by (simp add: locate_Inr(4) [OF loc])
  moreover then have "0 \<le> contentsTagPos pl" using e0 by linarith
  then have "contentsTagPos pl \<le> ?p"
    using buffer_indexOf_found(2) [OF _ lt] by (simp add: locate_Inr(5) [OF loc])
  ultimately have e_le_p: "byteRangeEnd pl \<le> ?p" by linarith
  note r = rewrite_byteRange_Inr [OF loc rew]
  have len: "length rewritten = length ?doc" by (rule rewrite_byteRange_length [OF loc rew])
  have e_nat: "?bp + ?bw \<le> nat ?p" using e_le_p r(4) e0 by linarith
  have tail: "drop (nat ?p) rewritten = drop (nat ?p) ?doc"
  proof -
    have "drop (?bp + ?bw) rewritten = drop (?bp + ?bw) ?doc"
      using r(1,3) by (simp add: r(2))
    then have "drop (nat ?p - (?bp + ?bw)) (drop (?bp + ?bw) rewritten) =
        drop (nat ?p - (?bp + ?bw)) (drop (?bp + ?bw) ?doc)"
      by simp
    then show ?thesis using e_nat by simp
  qed
  \<comment> \<open>the three parts of the rewritten buffer\<close>
  define before where "before = take (nat ?p) rewritten"
  define field where "field = take (nat ?w) (drop (nat ?p) rewritten)"
  define after where "after = drop (nat (?p + ?w)) rewritten"
  have split: "rewritten = before @ field @ after"
  proof -
    have "nat (?p + ?w) = nat ?w + nat ?p" using p0 w2 by (simp add: nat_add_distrib)
    then have "after = drop (nat ?w) (drop (nat ?p) rewritten)"
      by (simp only: after_def drop_drop)
    then have "field @ after = drop (nat ?p) rewritten"
      by (simp only: field_def append_take_drop_id)
    then show ?thesis by (simp only: before_def append_take_drop_id)
  qed
  have br: "byteRange pl = (0, ?p, ?p + ?w, int (length rewritten) - (?p + ?w))"
    by (simp add: locate_Inr(9) [OF loc] len)
  have w0: "0 \<le> ?w" using w2 by linarith
  have inside': "?p + ?w \<le> int (length rewritten)" using inside by (simp add: len)
  have removed: "remove_placeholder rewritten pl = before @ after"
    using remove_placeholder_inside [OF br p0 w0 inside'] by (simp add: before_def after_def)
  have field_doc: "field = take (nat ?w) (drop (nat ?p) ?doc)"
    by (simp add: field_def tail)
  have fl: "int (length field) = ?w"
    using inside p0 w0 by (simp add: field_doc)
  have fl2: "2 \<le> length field" using fl w2 by linarith
  have hd_field: "hd field = CHR ''<''"
  proof -
    have "nat ?p < length ?doc" using p0 p_lt by linarith
    moreover have "0 < nat ?w" using w2 by linarith
    ultimately have "hd field = ?doc ! nat ?p"
      by (simp add: field_doc hd_drop_conv_nth)
    with p_char show ?thesis by simp
  qed
  have last_field: "last field = CHR ''>''"
  proof -
    have ne: "field \<noteq> []" using fl2 by auto
    have fln: "length field = nat ?w" using fl w0 by linarith
    have "last field = field ! (nat ?w - 1)" using ne by (simp add: last_conv_nth fln)
    also have "\<dots> = ?doc ! (nat ?p + (nat ?w - 1))"
      using w2 inside p0 by (simp add: field_doc)
    also have "nat ?p + (nat ?w - 1) = nat ?q" using p0 w pq by linarith
    finally show ?thesis using q_char by simp
  qed
  have bl: "int (length before) = ?p"
    using p0 inside' w0 by (simp add: before_def)
  have al: "int (length after) = ?n - (?p + ?w)"
    using p0 w0 inside' by (simp add: after_def len)
  \<comment> \<open>the written text\<close>
  have written: "take (length ?a) (drop ?bp rewritten) = ?a"
    using r(3) by (simp add: r(2))
  have printed: "?a = ''/ByteRange [0 '' @ number_toString ?p @ '' '' @
      number_toString (?p + ?w) @ '' '' @ number_toString (?n - (?p + ?w)) @ '']''"
    by (simp add: actualByteRange_text [OF locate_Inr(9) [OF loc]] number_toString_0)
  have modelled: "?doc = strip_trailing_newline pdfBuffer \<longrightarrow>
      ?p + (?n - (?p + ?w)) + ?w =
        int (length pdfBuffer) - (if pdfBuffer \<noteq> [] \<and> last pdfBuffer = CHR 0x0A then 1 else 0)"
  proof
    assume "?doc = strip_trailing_newline pdfBuffer"
    then have "?n = int (length (strip_trailing_newline pdfBuffer))" by simp
    then show "?p + (?n - (?p + ?w)) + ?w =
        int (length pdfBuffer) - (if pdfBuffer \<noteq> [] \<and> last pdfBuffer = CHR 0x0A then 1 else 0)"
      by (simp only: strip_trailing_newline_length)
  qed
  show ?thesis
    apply (rule exI [of _ "?p"])
    apply (rule exI [of _ "?p + ?w"])
    apply (rule exI [of _ "?n - (?p + ?w)"])
    apply (rule exI [of _ before])
    apply (rule exI [of _ field])
    apply (rule exI [of _ after])
    using written printed split removed field_doc fl2 hd_field last_field bl fl al modelled
    apply (simp only: locate_Inr(9) [OF loc])
    apply simp
    done
qed

theorem byteRange_spans_witness:
  "locate new_SignPdf (removeTrailingNewLine plain_toolkit example_pdf_newline) =
     Inr example_placement \<and>
   rewrite_byteRange new_SignPdf (removeTrailingNewLine plain_toolkit example_pdf_newline)
     example_placement = Inr example_rewritten \<and>
   contentsTagPos example_placement \<noteq> - 1 \<and>
   placeholderPos example_placement \<noteq> - 1 \<and>
   placeholderEnd example_placement \<noteq> - 1 \<and>
   removeTrailingNewLine plain_toolkit example_pdf_newline =
     strip_trailing_newline example_pdf_newline \<and>
   byteRange example_placement = (0, 66, 72, 7) \<and>
   take (length (actualByteRange example_placement))
        (drop (nat (byteRangePos example_placement)) example_rewritten) =
     ''/ByteRange [0 66 72 7]'' \<and>
   remove_placeholder example_rewritten example_placement = example_signed_bytes \<and>
   take (nat (placeholderLengthWithBrackets example_placement))
        (drop (nat (placeholderPos example_placement)) example_rewritten) = ''<0000>'' \<and>
   66 + 7 + placeholderLengthWithBrackets example_placement =
     int (length example_pdf_newline) - 1"
proof -
  let ?doc = "removeTrailingNewLine plain_toolkit example_pdf_newline"
  have loc: "locate new_SignPdf ?doc = Inr example_placement"
    by code_simp
  have rew: "rewrite_byteRange new_SignPdf ?doc example_placement = Inr example_rewritten"
    by code_simp
  have found: "contentsTagPos example_placement \<noteq> - 1"
    "placeholderPos example_placement \<noteq> - 1" "placeholderEnd example_placement \<noteq> - 1"
    by (simp_all add: example_placement_def)
  have helper: "?doc = strip_trailing_newline example_pdf_newline"
    by code_simp
  have ends: "example_pdf_newline \<noteq> [] \<and> last example_pdf_newline = CHR 0x0A"
    by (simp add: example_pdf_newline_def)
  have br: "byteRange example_placement = (0, 66, 72, 7)"
    by (simp add: example_placement_def)
  have n: "number_toString 66 = ''66''" "number_toString 72 = ''72''"
    "number_toString 7 = ''7''"
    by code_simp+
  have rp: "remove_placeholder example_rewritten example_placement = example_signed_bytes"
    by code_simp
  have fd: "take (nat (placeholderLengthWithBrackets example_placement))
      (drop (nat (placeholderPos example_placement)) example_rewritten) = ''<0000>''"
    by code_simp
  from byteRange_spans [OF loc rew found] obtain len0 start1 len1 where
    b: "byteRange example_placement = (0, len0, start1, len1)"
    and w: "take (length (actualByteRange example_placement))
        (drop (nat (byteRangePos example_placement)) example_rewritten) =
      ''/ByteRange [0 '' @ number_toString len0 @ '' '' @ number_toString start1 @
      '' '' @ number_toString len1 @ '']''"
    and m: "?doc = strip_trailing_newline example_pdf_newline \<longrightarrow>
      len0 + len1 + placeholderLengthWithBrackets example_placement =
        int (length example_pdf_newline) -
        (if example_pdf_newline \<noteq> [] \<and> last example_pdf_newline = CHR 0x0A then 1 else 0)"
    by blast
  from b br have v: "len0 = 66" "start1 = 72" "len1 = 7" by simp_all
  from w have w': "take (length (actualByteRange example_placement))
      (drop (nat (byteRangePos example_placement)) example_rewritten) =
      ''/ByteRange [0 66 72 7]''"
    unfolding v n by simp
  from m helper ends
  have s: "66 + 7 + placeholderLengthWithBrackets example_placement =
      int (length example_pdf_newline) - 1"
    unfolding v by simp
  from loc rew found helper br w' rp fd s show ?thesis by blast
qed

text \<open>
  The claim as stated fails for a document that ends with a line feed: the three numbers
  add up to one less than the length of the buffer the caller passed.
\<close>

theorem byteRange_original_length_counterexample:
  "locate new_SignPdf (removeTrailingNewLine plain_toolkit example_pdf_newline) =
     Inr example_placement \<and>
   byteRange example_placement = (0, 66, 72, 7) \<and>
   placeholderLengthWithBrackets example_placement = 6 \<and>
   int (length example_pdf_newline) = 80 \<and>
   66 + 7 + placeholderLengthWithBrackets example_placement \<noteq> int (length example_pdf_newline)"
  by code_simp

text \<open>
  C7. For a document in which the placeholder is found: whenever line 70 pads the
  \<open>/ByteRange\<close> text at all, the padded text is exactly as wide as the placeholder text,
  the buffer keeps its length, and every byte before and after the replaced text stays
  where it was. For the signer as its constructor builds it and a document shorter than
  \<open>10^11\<close> bytes it always does: the three numbers fit the 33 columns that the placeholder
  reserves. (Every buffer of Node up to version 21 is that short. In a longer one the
  numbers can need more columns, and then \<open>repeat\<close> throws a \<open>RangeError\<close> and nothing is
  rewritten.)
\<close>

theorem rewrite_byteRange_same_width:
  assumes loc: "locate this pdf = Inr pl"
  shows "(\<forall>rewritten.
            rewrite_byteRange this pdf pl = Inr rewritten \<longrightarrow>
              length (actualByteRange pl) \<le> length (byteRangeString this) \<and>
              take (length (byteRangeString this)) (drop (nat (byteRangePos pl)) rewritten) =
                actualByteRange pl @
                replicate (length (byteRangeString this) - length (actualByteRange pl))
                  CHR '' '' \<and>
              length rewritten = length pdf \<and>
              take (nat (byteRangePos pl)) rewritten = take (nat (byteRangePos pl)) pdf \<and>
              drop (nat (byteRangeEnd pl)) rewritten = drop (nat (byteRangeEnd pl)) pdf) \<and>
         (byteRangePlaceholder this = DEFAULT_BYTE_RANGE_PLACEHOLDER \<and> length pdf < 10 ^ 11 \<longrightarrow>
            (\<exists>rewritten. rewrite_byteRange this pdf pl = Inr rewritten))"
proof (intro conjI allI impI)
  fix rewritten
  assume rew: "rewrite_byteRange this pdf pl = Inr rewritten"
  let ?w = "length (byteRangeString this)"
  let ?a = "actualByteRange pl"
  let ?p = "nat (byteRangePos pl)"
  note r = rewrite_byteRange_Inr [OF loc rew]
  show "length ?a \<le> ?w" by (rule r(1))
  show "take ?w (drop ?p rewritten) = ?a @ replicate (?w - length ?a) CHR '' ''"
    using r(1,3) by (simp add: r(2))
  show "length rewritten = length pdf"
    using r(1,3) by (simp add: r(2))
  show "take ?p rewritten = take ?p pdf"
    using r(3) by (simp add: r(2))
  show "drop (nat (byteRangeEnd pl)) rewritten = drop (nat (byteRangeEnd pl)) pdf"
    using r(1,3) by (simp add: r(2) r(4))
next
  assume "byteRangePlaceholder this = DEFAULT_BYTE_RANGE_PLACEHOLDER \<and> length pdf < 10 ^ 11"
  then have ph: "byteRangePlaceholder this = DEFAULT_BYTE_RANGE_PLACEHOLDER"
    and len: "length pdf < 10 ^ 11"
    by blast+
  have "length (byteRangeString this) = 50" by (simp add: byteRangeString_default [OF ph])
  with actualByteRange_length [OF len loc]
  have "length (actualByteRange pl) \<le> length (byteRangeString this)" by simp
  then show "\<exists>rewritten. rewrite_byteRange this pdf pl = Inr rewritten"
    by (rule rewrite_byteRange_fits)
qed

theorem rewrite_byteRange_same_width_witness:
  "locate new_SignPdf example_pdf = Inr example_placement \<and>
   byteRangePlaceholder new_SignPdf = DEFAULT_BYTE_RANGE_PLACEHOLDER \<and>
   length example_pdf < 10 ^ 11 \<and>
   rewrite_byteRange new_SignPdf example_pdf example_placement = Inr example_rewritten \<and>
   length (actualByteRange example_placement) \<le> length (byteRangeString new_SignPdf) \<and>
   take (length (byteRangeString new_SignPdf))
        (drop (nat (byteRangePos example_placement)) example_rewritten) =
     actualByteRange example_placement @
     replicate (length (byteRangeString new_SignPdf) -
                length (actualByteRange example_placement)) CHR '' '' \<and>
   length example_rewritten = length example_pdf \<and>
   take (nat (byteRangePos example_placement)) example_rewritten =
     take (nat (byteRangePos example_placement)) example_pdf \<and>
   drop (nat (byteRangeEnd example_placement)) example_rewritten =
     drop (nat (byteRangeEnd example_placement)) example_pdf"
proof -
  have ph: "byteRangePlaceholder new_SignPdf = DEFAULT_BYTE_RANGE_PLACEHOLDER"
    by (simp add: new_SignPdf_def)
  have len: "length example_pdf < 10 ^ 11"
    by (simp add: example_pdf_def)
  have loc: "locate new_SignPdf example_pdf = Inr example_placement"
    by code_simp
  note t = rewrite_byteRange_same_width [OF loc]
  from t ph len obtain rewritten where
    rew: "rewrite_byteRange new_SignPdf example_pdf example_placement = Inr rewritten"
    by blast
  have "rewrite_byteRange new_SignPdf example_pdf example_placement = Inr example_rewritten"
    by code_simp
  with rew have eq: "rewritten = example_rewritten" by simp
  from t rew [unfolded eq] ph len loc show ?thesis by blast
qed

text \<open>
  C8 (the code departs from the claim). When \<open>placeholderLength\<close> is odd, the count of the
  padding, \<open>(placeholderLength / 2) - raw.length\<close>, is not a whole number and \<open>repeat\<close>
  truncates it: the payload between the brackets is one character shorter than
  \<open>placeholderLength\<close>. The comment of line 173 says the padding makes the signature as long
  as the placeholder. The second half of the claim holds: the signed buffer is the buffer
  without the placeholder, with the bracketed payload inserted at \<open>byteRange[1]\<close>.
\<close>

theorem odd_placeholder_payload_is_short:
  assumes "odd (placeholderLength pl)"
    and "int (length raw) * 2 \<le> placeholderLength pl"
  shows "\<exists>payload.
           padded_signature raw (placeholderLength pl) = Inr payload \<and>
           int (length payload) = placeholderLength pl - 1 \<and>
           embed this pdf pl raw =
             (Inr (concat [buffer_slice pdf 0 (fst (snd (byteRange pl))),
                           ''<'' @ payload @ ''>'',
                           buffer_slice_from pdf (fst (snd (byteRange pl)))]),
              this\<lparr>lastSignature := Some (toString_hex raw)\<rparr>)"
proof -
  from padded_signature_length [OF assms(2)] obtain payload where
    p: "padded_signature raw (placeholderLength pl) = Inr payload"
    and l: "int (length payload) = 2 * (placeholderLength pl div 2)"
    by blast
  from assms(1) have "2 * (placeholderLength pl div 2) = placeholderLength pl - 1"
    by presburger
  with l have l': "int (length payload) = placeholderLength pl - 1" by simp
  have "embed this pdf pl raw =
      (Inr (concat [buffer_slice pdf 0 (fst (snd (byteRange pl))),
                    ''<'' @ payload @ ''>'',
                    buffer_slice_from pdf (fst (snd (byteRange pl)))]),
       this\<lparr>lastSignature := Some (toString_hex raw)\<rparr>)"
    using assms(2) p by (simp add: embed_def Let_def split: prod.splits)
  with p l' show ?thesis by blast
qed

theorem odd_placeholder_payload_is_short_witness:
  "odd (placeholderLength example_placement_odd) \<and>
   int (length ''0'') * 2 \<le> placeholderLength example_placement_odd \<and>
   prepare plain_toolkit new_SignPdf example_pdf_odd ''p12'' (merge_options no_options) =
     Inr (example_placement_odd, example_signed_bytes_odd, ''0'') \<and>
   padded_signature ''0'' (placeholderLength example_placement_odd) = Inr ''3000'' \<and>
   int (length ''3000'') = placeholderLength example_placement_odd - 1 \<and>
   sign plain_toolkit new_SignPdf (Buffer example_pdf_odd) (Buffer ''p12'') no_options =
     (Inr ''%PDF /ByteRange [0 66 73 7]                             /Contents <3000> endobj'',
      new_SignPdf\<lparr>lastSignature := Some ''30''\<rparr>)"
proof -
  have h1: "odd (placeholderLength example_placement_odd)"
    by code_simp
  have h2: "int (length ''0'') * 2 \<le> placeholderLength example_placement_odd"
    by code_simp
  have h3: "prepare plain_toolkit new_SignPdf example_pdf_odd ''p12''
      (merge_options no_options) = Inr (example_placement_odd, example_signed_bytes_odd, ''0'')"
    by code_simp
  have h4: "padded_signature ''0'' (placeholderLength example_placement_odd) = Inr ''3000''"
    by code_simp
  have h5: "concat [buffer_slice example_signed_bytes_odd 0
                       (fst (snd (byteRange example_placement_odd))),
                    ''<'' @ ''3000'' @ ''>'',
                    buffer_slice_from example_signed_bytes_odd
                       (fst (snd (byteRange example_placement_odd)))] =
      ''%PDF /ByteRange [0 66 73 7]                             /Contents <3000> endobj''"
    by code_simp
  have h6: "toString_hex ''0'' = ''30''"
    by code_simp
  from odd_placeholder_payload_is_short [OF h1 h2, of new_SignPdf example_signed_bytes_odd]
  have e: "int (length ''3000'') = placeholderLength example_placement_odd - 1 \<and>
    embed new_SignPdf example_signed_bytes_odd example_placement_odd ''0'' =
      (Inr ''%PDF /ByteRange [0 66 73 7]                             /Contents <3000> endobj'',
       new_SignPdf\<lparr>lastSignature := Some ''30''\<rparr>)"
    unfolding h4 h6 by (auto simp: h5 [simplified])
  then have "sign plain_toolkit new_SignPdf (Buffer example_pdf_odd) (Buffer ''p12'')
      no_options =
     (Inr ''%PDF /ByteRange [0 66 73 7]                             /Contents <3000> endobj'',
      new_SignPdf\<lparr>lastSignature := Some ''30''\<rparr>)"
    by (simp add: sign_def h3)
  with h1 h2 h3 h4 e show ?thesis by blast
qed

text \<open>
  C10. \<open>sign\<close> works on what \<open>removeTrailingNewLine\<close> returns for the caller's buffer: its
  outcome is the outcome for that buffer, and when it returns, the positions of the
  \<open>/ByteRange\<close> array are positions in that buffer, its last number is measured from the
  end of that buffer, and (the placeholder found) the returned buffer is as long as that
  buffer when \<open>placeholderLength\<close> is even, one byte shorter when it is odd. The helper
  itself is not among the sources and is a parameter here.
\<close>

theorem sign_works_on_trimmed_buffer:
  "sign tk this (Buffer pdfBytes) p12Buffer opts =
     sign (tk\<lparr>removeTrailingNewLine := (\<lambda>pdf. pdf)\<rparr>) this
       (Buffer (removeTrailingNewLine tk pdfBytes)) p12Buffer opts \<and>
   (\<forall>signed this'.
      sign tk this (Buffer pdfBytes) p12Buffer opts = (Inr signed, this') \<longrightarrow>
      (\<exists>pl. locate this (removeTrailingNewLine tk pdfBytes) = Inr pl \<and>
            byteRange pl =
              (0, placeholderPos pl, placeholderEnd pl + 1,
               int (length (removeTrailingNewLine tk pdfBytes)) - (placeholderEnd pl + 1)) \<and>
            (0 \<le> placeholderPos pl \<longrightarrow>
               int (length signed) =
                 int (length (removeTrailingNewLine tk pdfBytes)) - placeholderLength pl mod 2)))"
proof (intro conjI allI impI)
  have "prepare tk this pdfBytes p12Bytes options =
      prepare (tk\<lparr>removeTrailingNewLine := (\<lambda>pdf. pdf)\<rparr>) this
        (removeTrailingNewLine tk pdfBytes) p12Bytes options" for p12Bytes options
    by (simp add: prepare_def Let_def build_signature_helper_update)
  then show "sign tk this (Buffer pdfBytes) p12Buffer opts =
     sign (tk\<lparr>removeTrailingNewLine := (\<lambda>pdf. pdf)\<rparr>) this
       (Buffer (removeTrailingNewLine tk pdfBytes)) p12Buffer opts"
    by (cases p12Buffer) (simp_all add: sign_def)
next
  fix signed this'
  assume ok: "sign tk this (Buffer pdfBytes) p12Buffer opts = (Inr signed, this')"
  then obtain p12Bytes where b: "p12Buffer = Buffer p12Bytes"
    by (cases p12Buffer) (simp_all add: sign_def)
  from sign_Inr [OF ok [unfolded b]] obtain pl pdf raw where
    prep: "prepare tk this pdfBytes p12Bytes (merge_options opts) = Inr (pl, pdf, raw)"
    and emb: "embed this pdf pl raw = (Inr signed, this')"
    by blast
  from prepare_Inr [OF prep] obtain rewritten where
    loc: "locate this (removeTrailingNewLine tk pdfBytes) = Inr pl"
    and rew: "rewrite_byteRange this (removeTrailingNewLine tk pdfBytes) pl = Inr rewritten"
    and pdf: "pdf = remove_placeholder rewritten pl"
    by blast
  have br: "byteRange pl =
      (0, placeholderPos pl, placeholderEnd pl + 1,
       int (length (removeTrailingNewLine tk pdfBytes)) - (placeholderEnd pl + 1))"
    by (simp add: locate_Inr(9) [OF loc] locate_Inr(7) [OF loc])
  have "0 \<le> placeholderPos pl \<longrightarrow>
      int (length signed) =
        int (length (removeTrailingNewLine tk pdfBytes)) - placeholderLength pl mod 2"
    using signed_length [OF loc rew emb [unfolded pdf]] by blast
  with loc br
  show "\<exists>pl. locate this (removeTrailingNewLine tk pdfBytes) = Inr pl \<and>
            byteRange pl =
              (0, placeholderPos pl, placeholderEnd pl + 1,
               int (length (removeTrailingNewLine tk pdfBytes)) - (placeholderEnd pl + 1)) \<and>
            (0 \<le> placeholderPos pl \<longrightarrow>
               int (length signed) =
                 int (length (removeTrailingNewLine tk pdfBytes)) - placeholderLength pl mod 2)"
    by blast
qed

theorem sign_works_on_trimmed_buffer_witness:
  "sign plain_toolkit new_SignPdf (Buffer example_pdf_newline) (Buffer ''p12'') no_options =
     (Inr ''%PDF /ByteRange [0 66 72 7]                             /Contents <3000> endobj'',
      new_SignPdf\<lparr>lastSignature := Some ''30''\<rparr>) \<and>
   removeTrailingNewLine plain_toolkit example_pdf_newline = example_pdf \<and>
   length example_pdf_newline = 80 \<and>
   (\<exists>pl. locate new_SignPdf example_pdf = Inr pl \<and>
         byteRange pl = (0, 66, 72, 7) \<and>
         int (length
           ''%PDF /ByteRange [0 66 72 7]                             /Contents <3000> endobj'') =
           79 - placeholderLength pl mod 2)"
proof -
  let ?out = "''%PDF /ByteRange [0 66 72 7]                             /Contents <3000> endobj''"
  have h: "sign plain_toolkit new_SignPdf (Buffer example_pdf_newline) (Buffer ''p12'')
      no_options = (Inr ?out, new_SignPdf\<lparr>lastSignature := Some ''30''\<rparr>)"
    by code_simp
  have t: "removeTrailingNewLine plain_toolkit example_pdf_newline = example_pdf"
    by code_simp
  have n: "length example_pdf_newline = 80" "int (length example_pdf) = 79"
    by code_simp+
  from sign_works_on_trimmed_buffer [of plain_toolkit new_SignPdf example_pdf_newline
      "Buffer ''p12''" no_options] h
  obtain pl where loc: "locate new_SignPdf example_pdf = Inr pl"
    and br: "byteRange pl = (0, placeholderPos pl, placeholderEnd pl + 1,
       int (length example_pdf) - (placeholderEnd pl + 1))"
    and l: "0 \<le> placeholderPos pl \<longrightarrow>
       int (length ?out) = int (length example_pdf) - placeholderLength pl mod 2"
    unfolding t by blast
  have e: "locate new_SignPdf example_pdf = Inr example_placement"
    by code_simp
  from loc e have pl: "pl = example_placement" by simp
  have v: "placeholderPos example_placement = 66" "placeholderEnd example_placement = 71"
    by (simp_all add: example_placement_def)
  from br have br': "byteRange pl = (0, 66, 72, 7)" unfolding pl v n by simp
  from l have "int (length ?out) = 79 - placeholderLength pl mod 2"
    unfolding pl v n by simp
  with h t n loc br' show ?thesis by blast
qed

end
